theory Spec2Isabelle
  imports Main
begin

section \<open>Runtime and library functions the broker calls\<close>

text \<open>
  The broker is TypeScript. Strings are modelled as \<open>string\<close> (lists of 8-bit characters),
  JavaScript \<open>bigint\<close> values as \<open>int\<close>, \<open>T | null\<close> and optional fields as \<open>option\<close>.
  A thrown \<open>Error\<close> is the left summand of a result; every \<open>throw\<close> of the source is
  one constructor of \<open>error\<close>, named after its message.
\<close>

datatype error =
    NoActiveWallet
  | WalletFrozen
  | ExceedsPerTransactionLimit
  | ExceedsDailyCap
  | ServiceBlocked
  | ServiceNotAllowed
  | TransactionNotFound string
  | SessionNotFound
  | SessionExpired
  | NoCompatibleOption
  | NetworkMismatch
  | Not402 nat
  | NoUsdcDomain string
  | InvalidDecimalNumber string
  | BigIntSyntaxError string
  | FetchFailed
  | JsonParseError
  | InvalidUrl
  | AdapterError
  | BrowserMustSignClientSide

subsection \<open>String primitives\<close>

text \<open>
  Byte-lowercasing, which \<open>Headers.get\<close> applies to a header name: \<open>A\<close> to \<open>Z\<close> are folded
  and every other character is kept.
\<close>

definition asciiLowerChar :: "char \<Rightarrow> char" where
  "asciiLowerChar c =
     (case map_of (zip ''ABCDEFGHIJKLMNOPQRSTUVWXYZ'' ''abcdefghijklmnopqrstuvwxyz'') c of
        Some l \<Rightarrow> l
      | None \<Rightarrow> c)"

definition asciiLowerCase :: "string \<Rightarrow> string" where
  "asciiLowerCase s = map asciiLowerChar s"

text \<open>
  \<open>String.prototype.toLowerCase\<close> is the runtime's: the functions of the broker that call it
  take it as a parameter (\<open>lower\<close>, and \<open>e_toLowerCase\<close> of the environment below). On
  characters below 256 it folds \<open>A\<close> to \<open>Z\<close> and the capital letters from U+00C0 to U+00DE,
  all of that range but the sign U+00D7, onto the letter 32 places up, and keeps every
  other character. \<open>latin1Small\<close> lists the characters from U+00E0 to U+00FE.
\<close>

definition latin1Small :: string where
  "latin1Small =
     [CHR 0xE0, CHR 0xE1, CHR 0xE2, CHR 0xE3, CHR 0xE4, CHR 0xE5, CHR 0xE6, CHR 0xE7,
      CHR 0xE8, CHR 0xE9, CHR 0xEA, CHR 0xEB, CHR 0xEC, CHR 0xED, CHR 0xEE, CHR 0xEF,
      CHR 0xF0, CHR 0xF1, CHR 0xF2, CHR 0xF3, CHR 0xF4, CHR 0xF5, CHR 0xF6, CHR 0xF7,
      CHR 0xF8, CHR 0xF9, CHR 0xFA, CHR 0xFB, CHR 0xFC, CHR 0xFD, CHR 0xFE]"

definition lowerChar :: "char \<Rightarrow> char" where
  "lowerChar c =
     (let n = of_char c :: nat in
      if 65 \<le> n \<and> n \<le> 90 then ''abcdefghijklmnopqrstuvwxyz'' ! (n - 65)
      else if 192 \<le> n \<and> n \<le> 222 \<and> n \<noteq> 215 then latin1Small ! (n - 192)
      else c)"

definition toLowerCase :: "string \<Rightarrow> string" where
  "toLowerCase s = map lowerChar s"

text \<open>\<open>s.startsWith(p)\<close>.\<close>

definition startsWith :: "string \<Rightarrow> string \<Rightarrow> bool" where
  "startsWith s p = (take (length p) s = p)"

text \<open>\<open>s.includes(p)\<close>: \<open>p\<close> occurs in \<open>s\<close> as a contiguous substring.\<close>

fun str_includes :: "string \<Rightarrow> string \<Rightarrow> bool" where
  "str_includes [] p = (p = [])"
| "str_includes (c # cs) p = (startsWith (c # cs) p \<or> str_includes cs p)"

text \<open>\<open>/0+$/\<close> removed from the end of a digit string.\<close>

definition trimTrailingZeros :: "string \<Rightarrow> string" where
  "trimTrailingZeros s = rev (dropWhile (\<lambda>c. c = CHR ''0'') (rev s))"

text \<open>\<open>s.padStart(n, "0")\<close>.\<close>

definition padStart0 :: "nat \<Rightarrow> string \<Rightarrow> string" where
  "padStart0 n s = replicate (n - length s) (CHR ''0'') @ s"

subsection \<open>Decimal digits\<close>

definition isDigit :: "char \<Rightarrow> bool" where
  "isDigit c = (let n = of_char c :: nat in 48 \<le> n \<and> n \<le> 57)"

definition digitVal :: "char \<Rightarrow> nat" where
  "digitVal c = of_char c - 48"

text \<open>The value of a digit string read in a base; the empty string reads as 0.\<close>

definition digitsToNat :: "nat \<Rightarrow> (char \<Rightarrow> nat) \<Rightarrow> string \<Rightarrow> nat" where
  "digitsToNat base dv s = foldl (\<lambda>acc c. acc * base + dv c) 0 s"

definition decToNat :: "string \<Rightarrow> nat" where
  "decToNat s = digitsToNat 10 digitVal s"

definition digitChar :: "nat \<Rightarrow> char" where
  "digitChar d = ''0123456789'' ! d"

text \<open>\<open>n.toString()\<close> for a non-negative integer: decimal digits, no leading zeros.\<close>

fun natToString :: "nat \<Rightarrow> string" where
  "natToString n = (if n < 10 then [digitChar n] else natToString (n div 10) @ [digitChar (n mod 10)])"

declare natToString.simps [simp del]

subsection \<open>\<open>BigInt(string)\<close>\<close>

text \<open>
  ECMAScript \<open>StringToBigInt\<close>: surrounding white space is stripped, the empty string is
  \<open>0n\<close>, a decimal literal may carry a sign, and \<open>0x\<close>, \<open>0o\<close>, \<open>0b\<close> literals are read
  without a sign. Anything else throws a \<open>SyntaxError\<close>.
\<close>

definition isSpace :: "char \<Rightarrow> bool" where
  "isSpace c = (of_char c \<in> {9::nat, 10, 11, 12, 13, 32, 160})"

definition stripSpace :: "string \<Rightarrow> string" where
  "stripSpace s = rev (dropWhile isSpace (rev (dropWhile isSpace s)))"

definition hexVal :: "char \<Rightarrow> nat option" where
  "hexVal c =
     (let n = of_char c :: nat in
      if 48 \<le> n \<and> n \<le> 57 then Some (n - 48)
      else if 97 \<le> n \<and> n \<le> 102 then Some (n - 87)
      else if 65 \<le> n \<and> n \<le> 70 then Some (n - 55)
      else None)"

definition radixLiteral :: "nat \<Rightarrow> string \<Rightarrow> nat option" where
  "radixLiteral base ds =
     (if ds \<noteq> [] \<and> list_all (\<lambda>c. case hexVal c of None \<Rightarrow> False | Some d \<Rightarrow> d < base) ds
      then Some (digitsToNat base (\<lambda>c. the (hexVal c)) ds)
      else None)"

definition BigInt :: "string \<Rightarrow> error + int" where
  "BigInt raw =
     (let s = stripSpace raw in
      if s = [] then Inr 0
      else if list_all isDigit s then Inr (int (decToNat s))
      else case s of
        c # d # rest \<Rightarrow>
          (if c = CHR ''-'' \<and> list_all isDigit (d # rest) then Inr (- int (decToNat (d # rest)))
           else if c = CHR ''+'' \<and> list_all isDigit (d # rest) then Inr (int (decToNat (d # rest)))
           else if c = CHR ''0'' \<and> d \<in> {CHR ''x'', CHR ''X''} then
             (case radixLiteral 16 rest of Some n \<Rightarrow> Inr (int n) | None \<Rightarrow> Inl (BigIntSyntaxError raw))
           else if c = CHR ''0'' \<and> d \<in> {CHR ''o'', CHR ''O''} then
             (case radixLiteral 8 rest of Some n \<Rightarrow> Inr (int n) | None \<Rightarrow> Inl (BigIntSyntaxError raw))
           else if c = CHR ''0'' \<and> d \<in> {CHR ''b'', CHR ''B''} then
             (case radixLiteral 2 rest of Some n \<Rightarrow> Inr (int n) | None \<Rightarrow> Inl (BigIntSyntaxError raw))
           else Inl (BigIntSyntaxError raw))
      | _ \<Rightarrow> Inl (BigIntSyntaxError raw))"

subsection \<open>viem: \<open>parseUnits\<close> and \<open>formatUnits\<close>\<close>

text \<open>
  Both are imported from the viem library. \<open>parseUnits(value, decimals)\<close> accepts
  \<open>/^(-?)([0-9]*)\.?([0-9]*)$/\<close>, splits at the point, drops trailing zeros of the fraction,
  pads the fraction to \<open>decimals\<close> digits or rounds it half up when it is longer, and
  reads sign, integer part and fraction as one integer. The rounding of an over-long
  fraction is written here as exact decimal rounding.
\<close>

definition splitAtDot :: "string \<Rightarrow> string \<times> string option" where
  "splitAtDot s =
     (let i = takeWhile (\<lambda>c. c \<noteq> CHR ''.'') s; r = dropWhile (\<lambda>c. c \<noteq> CHR ''.'') s
      in (i, case r of [] \<Rightarrow> None | _ # f \<Rightarrow> Some f))"

definition parseUnits :: "string \<Rightarrow> nat \<Rightarrow> error + int" where
  "parseUnits v decimals =
     (let negative = (v \<noteq> [] \<and> hd v = CHR ''-'');
          unsigned = (if negative then tl v else v);
          (integer, fracOpt) = splitAtDot unsigned;
          fraction0 = (case fracOpt of None \<Rightarrow> ''0'' | Some f \<Rightarrow> f)
      in if \<not> (list_all isDigit integer \<and> list_all isDigit fraction0)
         then Inl (InvalidDecimalNumber v)
         else
           let fraction = trimTrailingZeros fraction0;
               len = length fraction;
               magnitude =
                 (if len \<le> decimals
                  then decToNat integer * 10 ^ decimals + decToNat fraction * 10 ^ (decimals - len)
                  else decToNat integer * 10 ^ decimals
                       + decToNat fraction div 10 ^ (len - decimals)
                       + (if 10 ^ (len - decimals) \<le> 2 * (decToNat fraction mod 10 ^ (len - decimals))
                          then 1 else 0))
           in Inr (if negative then - int magnitude else int magnitude))"

text \<open>
  \<open>formatUnits(value, decimals)\<close>: the decimal digits of the magnitude, left-padded with
  zeros to \<open>decimals\<close> digits, split \<open>decimals\<close> digits from the right; trailing zeros
  of the fraction are removed, an empty integer part reads \<open>0\<close>, and the point is
  written only when a fraction digit is left.
\<close>

definition formatUnits :: "int \<Rightarrow> nat \<Rightarrow> string" where
  "formatUnits v decimals =
     (let negative = (v < 0);
          display = padStart0 decimals (natToString (nat \<bar>v\<bar>));
          integer = take (length display - decimals) display;
          fraction = trimTrailingZeros (drop (length display - decimals) display)
      in (if negative then ''-'' else '''')
         @ (if integer = [] then ''0'' else integer)
         @ (if fraction = [] then '''' else ''.'' @ fraction))"

section \<open>Data model (types.ts, adapters/types.ts)\<close>

record WalletInfo =
  wi_address :: string
  wi_createdAt :: string
  wi_frozen :: bool

record SpendingRules =
  maxPerTransaction :: "string option"
  dailyCap :: "string option"
  allowedServices :: "string list"
  blockedServices :: "string list"

definition DEFAULT_RULES :: SpendingRules where
  "DEFAULT_RULES =
     \<lparr>maxPerTransaction = None, dailyCap = None, allowedServices = [], blockedServices = []\<rparr>"

datatype TxStatus = Pending | Settled | Failed

record TransactionRecord =
  tx_id :: string
  tx_timestamp :: string
  tx_to :: string
  tx_service :: string
  tx_amount :: string
  tx_asset :: string
  tx_network :: string
  tx_txHash :: "string option"
  tx_status :: TxStatus
  tx_reason :: string

record AgentIdentity =
  ai_name :: string
  ai_description :: "string option"
  ai_agentId :: "string option"
  ai_agentRegistry :: "string option"
  ai_agentURI :: "string option"

text \<open>
  The five adapter configurations, tagged by \<open>type\<close>. Arguments in the order of the
  interface: credentials, then the optional \<open>walletId\<close> and \<open>address\<close>.
\<close>

datatype AdapterConfig =
    LocalKeyConfig string
  | PrivyConfig string string "string option" "string option"
  | CoinbaseCdpConfig string string "string option" "string option"
  | CrossmintConfig string "string option" "string option"
  | BrowserWalletConfig string

record WalletEntry =
  we_id :: string
  we_label :: string
  we_wallet :: WalletInfo
  we_adapterConfig :: AdapterConfig
  we_rules :: SpendingRules
  we_transactions :: "TransactionRecord list"
  we_agentIdentity :: "AgentIdentity option"

datatype NetworkId = Base | BaseSepolia

record ClawletState =
  wallets :: "WalletEntry list"
  activeWalletId :: "string option"
  network :: NetworkId

text \<open>
  The legacy single-wallet document. Each field may be missing or \<open>null\<close> in the file
  that is read, which is \<open>None\<close> here.
\<close>

record LegacyClawletState =
  lg_adapterConfig :: "AdapterConfig option"
  lg_wallet :: "WalletInfo option"
  lg_rules :: "SpendingRules option"
  lg_transactions :: "TransactionRecord list option"

text \<open>
  A parsed state file: \<open>RawV2\<close> when \<open>Array.isArray(obj.wallets)\<close>, \<open>RawLegacy\<close> otherwise.
\<close>

datatype RawState = RawV2 ClawletState | RawLegacy LegacyClawletState

section \<open>x402 protocol types and the outside world\<close>

record PaymentRequirements =
  pr_scheme :: string
  pr_network :: string
  pr_asset :: string
  pr_amount :: string
  pr_payTo :: string
  pr_maxTimeoutSeconds :: int

record PaymentRequired =
  pq_x402Version :: "nat option"
  pq_accepts :: "PaymentRequirements list"
  pq_resource :: "string option"

text \<open>
  The ERC-3009 authorization. The source keeps the time fields as \<open>bigint\<close> in the
  message that is signed and as decimal strings in the payload; both are the integer here.
\<close>

record Authorization =
  au_from :: string
  au_to :: string
  au_value :: string
  au_validAfter :: int
  au_validBefore :: int
  au_nonce :: string

record ExactEvmPayload =
  pl_signature :: string
  pl_authorization :: Authorization

record PaymentPayload =
  pp_x402Version :: nat
  pp_resource :: "string option"
  pp_accepted :: PaymentRequirements
  pp_payload :: ExactEvmPayload

record UsdcDomain =
  dm_name :: string
  dm_version :: string
  dm_chainId :: nat
  dm_verifyingContract :: string

record TypedData =
  td_domain :: UsdcDomain
  td_primaryType :: string
  td_message :: Authorization

record Request =
  rq_url :: string
  rq_method :: string
  rq_headers :: "(string \<times> string) list"
  rq_body :: "string option"

record Response =
  rs_status :: nat
  rs_headers :: "(string \<times> string) list"
  rs_body :: string

record Receipt =
  rc_transaction :: "string option"
  rc_txHash :: "string option"

record PaymentSession =
  ps_id :: string
  ps_url :: string
  ps_method :: string
  ps_headers :: "(string \<times> string) list"
  ps_body :: "string option"
  ps_reason :: string
  ps_accepted :: PaymentRequirements
  ps_paymentRequired :: PaymentRequired
  ps_authorization :: Authorization
  ps_txRecordId :: string
  ps_expiresAt :: int

text \<open>
  Everything one operation reads from outside the process: the clock, the random bytes,
  the upstream server (a function of the request), the codecs of the wire format, the URL
  parser, the runtime's \<open>String.prototype.toLowerCase\<close>, and the signer behind a
  server-side adapter.
\<close>

record env =
  e_now :: int
  e_isoNow :: string
  e_randomTxId :: string
  e_randomNonce :: string
  e_randomSessionId :: string
  e_fetch :: "Request \<Rightarrow> error + Response"
  e_decodePaymentRequiredHeader :: "string \<Rightarrow> error + PaymentRequired"
  e_parsePaymentRequiredBody :: "string \<Rightarrow> error + PaymentRequired"
  e_encodePayload :: "PaymentPayload \<Rightarrow> string"
  e_decodeReceipt :: "string \<Rightarrow> Receipt option"
  e_hostname :: "string \<Rightarrow> error + string"
  e_toLowerCase :: "string \<Rightarrow> string"
  e_constructAdapter :: "AdapterConfig \<Rightarrow> error option"
  e_adapterAddress :: "AdapterConfig \<Rightarrow> error + string"
  e_adapterSign :: "AdapterConfig \<Rightarrow> TypedData \<Rightarrow> error + string"

text \<open>
  The effects an operation has on the outside, in the order they happen, and with them the
  removals from the session table (\<open>paymentSessions.delete\<close>), whose place among the
  requests is what makes a session one-shot. \<open>RenameSync\<close> is \<open>node:fs\<close>'s rename; the store
  never calls it.
\<close>

datatype event =
    WriteFileSync string ClawletState
  | MkdirSync string
  | RenameSync string string
  | HttpFetch Request
  | SignTypedDataCall TypedData
  | SessionDelete string

text \<open>
  The process: the in-memory document of store.ts, the path of the state file, the
  payment-session table of x402.ts (a \<open>Map\<close>, in insertion order), and the effects so far.
\<close>

record world =
  state :: ClawletState
  statePath :: string
  paymentSessions :: "(string \<times> PaymentSession) list"
  trace :: "event list"

section \<open>State store (store.ts)\<close>

definition persist :: "world \<Rightarrow> world" where
  "persist w = w\<lparr>trace := trace w @ [WriteFileSync (statePath w) (state w)]\<rparr>"

text \<open>\<open>randomId\<close> is \<open>randomBytes(8).toString("hex")\<close>.\<close>

definition migrateIfNeeded :: "string \<Rightarrow> RawState \<Rightarrow> ClawletState" where
  "migrateIfNeeded randomId raw =
     (case raw of
        RawV2 st \<Rightarrow> st
      | RawLegacy legacy \<Rightarrow>
          let ws =
            (case (lg_wallet legacy, lg_adapterConfig legacy) of
               (Some wi, Some cfg) \<Rightarrow>
                 [\<lparr>we_id = randomId, we_label = ''Wallet 1'', we_wallet = wi, we_adapterConfig = cfg,
                   we_rules = (case lg_rules legacy of Some r \<Rightarrow> r | None \<Rightarrow> DEFAULT_RULES),
                   we_transactions = (case lg_transactions legacy of Some ts \<Rightarrow> ts | None \<Rightarrow> []),
                   we_agentIdentity = None\<rparr>]
             | _ \<Rightarrow> [])
          in \<lparr>wallets = ws,
              activeWalletId = (case ws of [] \<Rightarrow> None | e # _ \<Rightarrow> Some (we_id e)),
              network = Base\<rparr>)"

definition emptyState :: ClawletState where
  "emptyState = \<lparr>wallets = [], activeWalletId = None, network = Base\<rparr>"

text \<open>
  \<open>initStore\<close>: \<open>dirExists\<close> is \<open>existsSync(dataDir)\<close>; \<open>file\<close> is the parsed state
  file, \<open>None\<close> when it does not exist. The result is the process right after start-up.
\<close>

definition initStore :: "string \<Rightarrow> string \<Rightarrow> string \<Rightarrow> bool \<Rightarrow> RawState option \<Rightarrow> world" where
  "initStore dataDir path randomId dirExists file =
     (let t0 = (if dirExists then [] else [MkdirSync dataDir]);
          st = (case file of Some raw \<Rightarrow> migrateIfNeeded randomId raw | None \<Rightarrow> emptyState)
      in persist \<lparr>state = st, statePath = path, paymentSessions = [], trace = t0\<rparr>)"

definition getActiveEntry :: "ClawletState \<Rightarrow> WalletEntry option" where
  "getActiveEntry st =
     (case activeWalletId st of
        None \<Rightarrow> None
      | Some i \<Rightarrow> if i = [] then None else find (\<lambda>w. we_id w = i) (wallets st))"

definition requireActiveEntry :: "ClawletState \<Rightarrow> error + WalletEntry" where
  "requireActiveEntry st =
     (case getActiveEntry st of None \<Rightarrow> Inl NoActiveWallet | Some entry \<Rightarrow> Inr entry)"

definition getNetworkCaip2 :: "ClawletState \<Rightarrow> string" where
  "getNetworkCaip2 st = (if network st = BaseSepolia then ''eip155:84532'' else ''eip155:8453'')"

text \<open>
  The entry \<open>requireActiveEntry\<close> returns is the object inside \<open>state.wallets\<close>; a write
  through it changes the first wallet with the active id.
\<close>

fun mapFirst :: "('a \<Rightarrow> bool) \<Rightarrow> ('a \<Rightarrow> 'a) \<Rightarrow> 'a list \<Rightarrow> 'a list" where
  "mapFirst P f [] = []"
| "mapFirst P f (x # xs) = (if P x then f x # xs else x # mapFirst P f xs)"

definition modifyActiveEntry :: "(WalletEntry \<Rightarrow> WalletEntry) \<Rightarrow> ClawletState \<Rightarrow> ClawletState" where
  "modifyActiveEntry f st =
     (case activeWalletId st of
        None \<Rightarrow> st
      | Some i \<Rightarrow> st\<lparr>wallets := mapFirst (\<lambda>w. we_id w = i) f (wallets st)\<rparr>)"

section \<open>Ledger (ledger.ts)\<close>

text \<open>
  \<open>addTransaction\<close>: \<open>params\<close> carries the eight fields of the call; its id and timestamp
  are set from \<open>randomBytes(16)\<close> and the clock.
\<close>

definition addTransaction ::
  "string \<Rightarrow> string \<Rightarrow> TransactionRecord \<Rightarrow> world \<Rightarrow> (error + TransactionRecord) \<times> world" where
  "addTransaction randomId isoNow params w =
     (case requireActiveEntry (state w) of
        Inl e \<Rightarrow> (Inl e, w)
      | Inr entry \<Rightarrow>
          let record = params\<lparr>tx_id := randomId, tx_timestamp := isoNow\<rparr>;
              st = modifyActiveEntry
                     (\<lambda>en. en\<lparr>we_transactions := we_transactions en @ [record]\<rparr>) (state w)
          in (Inr record, persist (w\<lparr>state := st\<rparr>)))"

record TxUpdate =
  up_status :: "TxStatus option"
  up_txHash :: "string option"
  up_reason :: "string option"

text \<open>
  \<open>if (update.txHash) tx.txHash = update.txHash\<close>: a field is written only when the
  update carries a truthy value, so an absent or empty hash or reason leaves the old one.
\<close>

definition applyUpdate :: "TxUpdate \<Rightarrow> TransactionRecord \<Rightarrow> TransactionRecord" where
  "applyUpdate u tx =
     tx\<lparr>tx_status := (case up_status u of Some s \<Rightarrow> s | None \<Rightarrow> tx_status tx),
        tx_txHash := (case up_txHash u of
                        Some h \<Rightarrow> if h \<noteq> [] then Some h else tx_txHash tx
                      | None \<Rightarrow> tx_txHash tx),
        tx_reason := (case up_reason u of
                        Some r \<Rightarrow> if r \<noteq> [] then r else tx_reason tx
                      | None \<Rightarrow> tx_reason tx)\<rparr>"

definition updateTransaction ::
  "string \<Rightarrow> TxUpdate \<Rightarrow> world \<Rightarrow> (error + TransactionRecord) \<times> world" where
  "updateTransaction i u w =
     (case requireActiveEntry (state w) of
        Inl e \<Rightarrow> (Inl e, w)
      | Inr entry \<Rightarrow>
          (case find (\<lambda>t. tx_id t = i) (we_transactions entry) of
             None \<Rightarrow> (Inl (TransactionNotFound i), w)
           | Some tx \<Rightarrow>
               let st = modifyActiveEntry
                          (\<lambda>en. en\<lparr>we_transactions :=
                                     mapFirst (\<lambda>t. tx_id t = i) (applyUpdate u) (we_transactions en)\<rparr>)
                          (state w)
               in (Inr (applyUpdate u tx), persist (w\<lparr>state := st\<rparr>))))"

section \<open>Rules engine (rules.ts)\<close>

text \<open>
  \<open>getTodaySpent\<close>: \<open>today\<close> is \<open>new Date().toISOString().slice(0, 10)\<close>. The loop adds
  \<open>parseUnits(tx.amount, 6)\<close> for every settled transaction whose timestamp starts with
  \<open>today\<close>; \<open>parseUnits\<close> throwing ends it.
\<close>

fun getTodaySpentFrom :: "string \<Rightarrow> int \<Rightarrow> TransactionRecord list \<Rightarrow> error + int" where
  "getTodaySpentFrom today tot [] = Inr tot"
| "getTodaySpentFrom today tot (tx # txs) =
     (if tx_status tx = Settled \<and> startsWith (tx_timestamp tx) today
      then (case parseUnits (tx_amount tx) 6 of
              Inl e \<Rightarrow> Inl e
            | Inr a \<Rightarrow> getTodaySpentFrom today (tot + a) txs)
      else getTodaySpentFrom today tot txs)"

definition getTodaySpent :: "string \<Rightarrow> TransactionRecord list \<Rightarrow> error + int" where
  "getTodaySpent today txs = getTodaySpentFrom today 0 txs"

definition checkPerTransaction :: "SpendingRules \<Rightarrow> int \<Rightarrow> nat \<Rightarrow> error + unit" where
  "checkPerTransaction rules amount decimals =
     (case maxPerTransaction rules of
        None \<Rightarrow> Inr ()
      | Some m \<Rightarrow>
          (case parseUnits m decimals of
             Inl e \<Rightarrow> Inl e
           | Inr mx \<Rightarrow> if amount > mx then Inl ExceedsPerTransactionLimit else Inr ()))"

definition checkDailyCap ::
  "string \<Rightarrow> SpendingRules \<Rightarrow> TransactionRecord list \<Rightarrow> int \<Rightarrow> nat \<Rightarrow> error + unit" where
  "checkDailyCap today rules txs amount decimals =
     (case dailyCap rules of
        None \<Rightarrow> Inr ()
      | Some c \<Rightarrow>
          (case parseUnits c decimals of
             Inl e \<Rightarrow> Inl e
           | Inr cap \<Rightarrow>
               (case getTodaySpent today txs of
                  Inl e \<Rightarrow> Inl e
                | Inr todaySpent \<Rightarrow>
                    if todaySpent + amount > cap then Inl ExceedsDailyCap else Inr ())))"

text \<open>
  \<open>normalized.includes(s.toLowerCase())\<close> with \<open>normalized = service.toLowerCase()\<close>;
  \<open>lower\<close> is the runtime's \<open>String.prototype.toLowerCase\<close>.
\<close>

definition serviceMatches :: "(string \<Rightarrow> string) \<Rightarrow> string \<Rightarrow> string \<Rightarrow> bool" where
  "serviceMatches lower service s = str_includes (lower service) (lower s)"

definition checkBlocklist :: "(string \<Rightarrow> string) \<Rightarrow> SpendingRules \<Rightarrow> string \<Rightarrow> error + unit" where
  "checkBlocklist lower rules service =
     (if blockedServices rules \<noteq> []
         \<and> list_ex (serviceMatches lower service) (blockedServices rules)
      then Inl ServiceBlocked else Inr ())"

definition checkAllowlist :: "(string \<Rightarrow> string) \<Rightarrow> SpendingRules \<Rightarrow> string \<Rightarrow> error + unit" where
  "checkAllowlist lower rules service =
     (if allowedServices rules \<noteq> []
         \<and> \<not> list_ex (serviceMatches lower service) (allowedServices rules)
      then Inl ServiceNotAllowed else Inr ())"

text \<open>
  \<open>enforceRules(amountAtomic, service, decimals)\<close> on the active wallet: the four checks
  in the order of the source, the first violation thrown. \<open>lower\<close> is the runtime's
  \<open>String.prototype.toLowerCase\<close> and \<open>today\<close> the date \<open>getTodaySpent\<close> reads from the clock.
\<close>

definition enforceRules ::
  "(string \<Rightarrow> string) \<Rightarrow> string \<Rightarrow> string \<Rightarrow> string \<Rightarrow> nat \<Rightarrow> ClawletState \<Rightarrow> error + unit" where
  "enforceRules lower today amountAtomic service decimals st =
     (case requireActiveEntry st of
        Inl e \<Rightarrow> Inl e
      | Inr entry \<Rightarrow>
          (case BigInt amountAtomic of
             Inl e \<Rightarrow> Inl e
           | Inr amount \<Rightarrow>
               (case checkPerTransaction (we_rules entry) amount decimals of
                  Inl e \<Rightarrow> Inl e
                | Inr _ \<Rightarrow>
                    (case checkDailyCap today (we_rules entry) (we_transactions entry) amount decimals of
                       Inl e \<Rightarrow> Inl e
                     | Inr _ \<Rightarrow>
                         (case checkBlocklist lower (we_rules entry) service of
                            Inl e \<Rightarrow> Inl e
                          | Inr _ \<Rightarrow> checkAllowlist lower (we_rules entry) service)))))"

section \<open>Wallet manager (wallet.ts), as far as the broker uses it\<close>

definition getWallet :: "ClawletState \<Rightarrow> error + WalletInfo" where
  "getWallet st = (case requireActiveEntry st of Inl e \<Rightarrow> Inl e | Inr entry \<Rightarrow> Inr (we_wallet entry))"

text \<open>
  An adapter is built from the persisted configuration (\<open>createAdapter\<close>); the constructor
  of a server-side adapter may throw, which \<open>e_constructAdapter\<close> answers. The adapter is
  identified with its configuration.
\<close>

definition getAdapter :: "env \<Rightarrow> ClawletState \<Rightarrow> error + AdapterConfig" where
  "getAdapter e st =
     (case requireActiveEntry st of
        Inl err \<Rightarrow> Inl err
      | Inr entry \<Rightarrow>
          (case we_adapterConfig entry of
             BrowserWalletConfig a \<Rightarrow> Inr (BrowserWalletConfig a)
           | cfg \<Rightarrow> (case e_constructAdapter e cfg of Some err \<Rightarrow> Inl err | None \<Rightarrow> Inr cfg)))"

definition getAgentIdentity :: "ClawletState \<Rightarrow> AgentIdentity option" where
  "getAgentIdentity st =
     (case getActiveEntry st of None \<Rightarrow> None | Some entry \<Rightarrow> we_agentIdentity entry)"

definition setFrozen :: "bool \<Rightarrow> world \<Rightarrow> (error + unit) \<times> world" where
  "setFrozen b w =
     (case requireActiveEntry (state w) of
        Inl e \<Rightarrow> (Inl e, w)
      | Inr entry \<Rightarrow>
          (Inr (), persist (w\<lparr>state :=
             modifyActiveEntry (\<lambda>en. en\<lparr>we_wallet := (we_wallet en)\<lparr>wi_frozen := b\<rparr>\<rparr>) (state w)\<rparr>)))"

definition freezeWallet :: "world \<Rightarrow> (error + unit) \<times> world" where
  "freezeWallet w = setFrozen True w"

definition unfreezeWallet :: "world \<Rightarrow> (error + unit) \<times> world" where
  "unfreezeWallet w = setFrozen False w"

text \<open>The adapter operations the broker calls (browser-wallet.ts for the browser variant).\<close>

definition adapterGetAddress :: "env \<Rightarrow> AdapterConfig \<Rightarrow> error + string" where
  "adapterGetAddress e cfg =
     (case cfg of
        BrowserWalletConfig a \<Rightarrow> if a = [] then Inl AdapterError else Inr a
      | _ \<Rightarrow> e_adapterAddress e cfg)"

definition adapterSignTypedData :: "env \<Rightarrow> AdapterConfig \<Rightarrow> TypedData \<Rightarrow> error + string" where
  "adapterSignTypedData e cfg td =
     (case cfg of
        BrowserWalletConfig a \<Rightarrow> Inl BrowserMustSignClientSide
      | _ \<Rightarrow> e_adapterSign e cfg td)"

section \<open>Constants (constants.ts)\<close>

definition CHAIN_IDS :: "string \<Rightarrow> nat option" where
  "CHAIN_IDS n =
     (if n = ''eip155:8453'' then Some 8453 else if n = ''eip155:84532'' then Some 84532 else None)"

definition USDC :: "string \<Rightarrow> string option" where
  "USDC n =
     (if n = ''eip155:8453'' then Some ''0x833589fCD6eDb6E08f4c7C32D4f71b54bdA02913''
      else if n = ''eip155:84532'' then Some ''0x036CbD53842c5426634e7929541eC2318f3dCF7e''
      else None)"

definition USDC_DOMAIN :: "string \<Rightarrow> UsdcDomain option" where
  "USDC_DOMAIN n =
     (if n = ''eip155:8453'' then
        Some \<lparr>dm_name = ''USD Coin'', dm_version = ''2'', dm_chainId = 8453,
              dm_verifyingContract = ''0x833589fCD6eDb6E08f4c7C32D4f71b54bdA02913''\<rparr>
      else if n = ''eip155:84532'' then
        Some \<lparr>dm_name = ''USDC'', dm_version = ''2'', dm_chainId = 84532,
              dm_verifyingContract = ''0x036CbD53842c5426634e7929541eC2318f3dCF7e''\<rparr>
      else None)"

section \<open>Payment broker (x402.ts)\<close>

text \<open>
  One operation runs from start to end against one \<open>env\<close>; operations of other callers
  do not interleave with it.
\<close>

record Options =
  op_method :: "string option"
  op_headers :: "(string \<times> string) list"
  op_body :: "string option"
  op_reason :: "string option"

record PaymentInfo =
  pi_txHash :: "string option"
  pi_amount :: string
  pi_to :: string

record FetchResult =
  fr_status :: nat
  fr_headers :: "(string \<times> string) list"
  fr_body :: string
  fr_payment :: "PaymentInfo option"

record PrepareResult =
  prep_sessionId :: string
  prep_domain :: UsdcDomain
  prep_primaryType :: string
  prep_message :: Authorization
  prep_amount :: string
  prep_payTo :: string
  prep_network :: string

datatype Negotiation =
    Passthrough Response
  | Payment PaymentRequirements PaymentRequired string

text \<open>Writing a key of a JavaScript object or \<open>Map\<close>: in place when present, at the end otherwise.\<close>

fun objSet :: "string \<Rightarrow> 'v \<Rightarrow> (string \<times> 'v) list \<Rightarrow> (string \<times> 'v) list" where
  "objSet k v [] = [(k, v)]"
| "objSet k v (p # ps) = (if fst p = k then (k, v) # ps else p # objSet k v ps)"

definition objDelete :: "string \<Rightarrow> (string \<times> 'v) list \<Rightarrow> (string \<times> 'v) list" where
  "objDelete k ps = filter (\<lambda>p. fst p \<noteq> k) ps"

text \<open>\<open>Headers.get\<close>: names are byte-lowercased before they are compared.\<close>

definition headerGet :: "(string \<times> string) list \<Rightarrow> string \<Rightarrow> string option" where
  "headerGet hs name = map_of (map (\<lambda>(k, v). (asciiLowerCase k, v)) hs) (asciiLowerCase name)"

definition logEvent :: "event \<Rightarrow> world \<Rightarrow> world" where
  "logEvent ev w = w\<lparr>trace := trace w @ [ev]\<rparr>"

definition cleanupUpdate :: TxUpdate where
  "cleanupUpdate =
     \<lparr>up_status = Some Failed, up_txHash = None, up_reason = Some ''Payment session expired''\<rparr>"

text \<open>\<open>paymentSessions.delete(id)\<close>.\<close>

definition deleteSession :: "string \<Rightarrow> world \<Rightarrow> world" where
  "deleteSession i w =
     logEvent (SessionDelete i) (w\<lparr>paymentSessions := objDelete i (paymentSessions w)\<rparr>)"

text \<open>
  \<open>cleanupSessions\<close>: the loop over the session table, in insertion order. A throwing
  \<open>updateTransaction\<close> ends the sweep with the session still in the table.
\<close>

fun cleanupLoop :: "int \<Rightarrow> (string \<times> PaymentSession) list \<Rightarrow> world \<Rightarrow> (error + unit) \<times> world" where
  "cleanupLoop now [] w = (Inr (), w)"
| "cleanupLoop now ((i, session) # rest) w =
     (if now > ps_expiresAt session then
        (case updateTransaction (ps_txRecordId session) cleanupUpdate w of
           (Inl e, w1) \<Rightarrow> (Inl e, w1)
         | (Inr _, w1) \<Rightarrow>
             cleanupLoop now rest (deleteSession i w1))
      else cleanupLoop now rest w)"

definition cleanupSessions :: "env \<Rightarrow> world \<Rightarrow> (error + unit) \<times> world" where
  "cleanupSessions e w = cleanupLoop (e_now e) (paymentSessions w) w"

fun findAcceptedOption ::
  "(string \<Rightarrow> string) \<Rightarrow> PaymentRequirements list \<Rightarrow> PaymentRequirements option" where
  "findAcceptedOption lower [] = None"
| "findAcceptedOption lower (opt # rest) =
     (if pr_scheme opt \<noteq> ''exact'' then findAcceptedOption lower rest
      else case CHAIN_IDS (pr_network opt) of
        None \<Rightarrow> findAcceptedOption lower rest
      | Some chainId \<Rightarrow>
          (case USDC (pr_network opt) of
             None \<Rightarrow> findAcceptedOption lower rest
           | Some expectedUsdc \<Rightarrow>
               if lower (pr_asset opt) = lower expectedUsdc then Some opt
               else findAcceptedOption lower rest))"

definition optMethod :: "Options \<Rightarrow> string" where
  "optMethod opts = (case op_method opts of None \<Rightarrow> ''GET'' | Some m \<Rightarrow> m)"

definition optReason :: "Options \<Rightarrow> string" where
  "optReason opts = (case op_reason opts of None \<Rightarrow> ''x402 payment'' | Some r \<Rightarrow> r)"

definition readPaymentRequired :: "env \<Rightarrow> Response \<Rightarrow> error + PaymentRequired" where
  "readPaymentRequired e resp =
     (case headerGet (rs_headers resp) ''payment-required'' of
        Some h \<Rightarrow> if h \<noteq> [] then e_decodePaymentRequiredHeader e h
                  else e_parsePaymentRequiredBody e (rs_body resp)
      | None \<Rightarrow> e_parsePaymentRequiredBody e (rs_body resp))"

definition negotiate :: "env \<Rightarrow> string \<Rightarrow> Options \<Rightarrow> world \<Rightarrow> (error + Negotiation) \<times> world" where
  "negotiate e url opts w =
     (let req = \<lparr>rq_url = url, rq_method = optMethod opts, rq_headers = op_headers opts,
                 rq_body = op_body opts\<rparr>;
          w1 = logEvent (HttpFetch req) w
      in case e_fetch e req of
           Inl err \<Rightarrow> (Inl err, w1)
         | Inr initialResponse \<Rightarrow>
             if rs_status initialResponse \<noteq> 402 then (Inr (Passthrough initialResponse), w1)
             else
               (case readPaymentRequired e initialResponse of
                  Inl err \<Rightarrow> (Inl err, w1)
                | Inr paymentRequired \<Rightarrow>
                    (case findAcceptedOption (e_toLowerCase e) (pq_accepts paymentRequired) of
                       None \<Rightarrow> (Inl NoCompatibleOption, w1)
                     | Some accepted \<Rightarrow>
                         if pr_network accepted \<noteq> getNetworkCaip2 (state w1)
                         then (Inl NetworkMismatch, w1)
                         else
                           (case e_hostname e url of
                              Inl err \<Rightarrow> (Inl err, w1)
                            | Inr service \<Rightarrow>
                                (case enforceRules (e_toLowerCase e) (take 10 (e_isoNow e))
                                        (pr_amount accepted) service 6 (state w1) of
                                   Inl err \<Rightarrow> (Inl err, w1)
                                 | Inr _ \<Rightarrow> (Inr (Payment accepted paymentRequired service), w1))))))"

definition makeAuthorization :: "env \<Rightarrow> string \<Rightarrow> PaymentRequirements \<Rightarrow> Authorization" where
  "makeAuthorization e fromAddress requirements =
     \<lparr>au_from = fromAddress, au_to = pr_payTo requirements, au_value = pr_amount requirements,
      au_validAfter = e_now e,
      au_validBefore = e_now e + pr_maxTimeoutSeconds requirements,
      au_nonce = ''0x'' @ e_randomNonce e\<rparr>"

definition signPayment ::
  "env \<Rightarrow> AdapterConfig \<Rightarrow> PaymentRequirements \<Rightarrow> world \<Rightarrow> (error + ExactEvmPayload) \<times> world" where
  "signPayment e adapter requirements w =
     (case adapterGetAddress e adapter of
        Inl err \<Rightarrow> (Inl err, w)
      | Inr fromAddress \<Rightarrow>
          (case USDC_DOMAIN (pr_network requirements) of
             None \<Rightarrow> (Inl (NoUsdcDomain (pr_network requirements)), w)
           | Some domain \<Rightarrow>
               (case BigInt (pr_amount requirements) of
                  Inl err \<Rightarrow> (Inl err, w)
                | Inr v \<Rightarrow>
                    let authorization = makeAuthorization e fromAddress requirements;
                        td = \<lparr>td_domain = domain, td_primaryType = ''TransferWithAuthorization'',
                              td_message = authorization\<rparr>;
                        w1 = logEvent (SignTypedDataCall td) w
                    in (case adapterSignTypedData e adapter td of
                          Inl err \<Rightarrow> (Inl err, w1)
                        | Inr signature \<Rightarrow>
                            (Inr \<lparr>pl_signature = signature, pl_authorization = authorization\<rparr>, w1)))))"

definition agentHeaders :: "AgentIdentity option \<Rightarrow> (string \<times> string) list \<Rightarrow> (string \<times> string) list" where
  "agentHeaders ident hs =
     (case ident of
        None \<Rightarrow> hs
      | Some a \<Rightarrow>
          (case (ai_agentId a, ai_agentRegistry a) of
             (Some aid, Some reg) \<Rightarrow>
               if aid \<noteq> [] \<and> reg \<noteq> [] then
                 (let hs1 = objSet ''X-AGENT-REGISTRY'' reg (objSet ''X-AGENT-ID'' aid hs)
                  in if ai_name a \<noteq> [] then objSet ''X-AGENT-NAME'' (ai_name a) hs1 else hs1)
               else hs
           | _ \<Rightarrow> hs))"

definition receiptHash :: "env \<Rightarrow> Response \<Rightarrow> string option" where
  "receiptHash e resp =
     (let hdr = (case headerGet (rs_headers resp) ''payment-response'' of
                   Some h \<Rightarrow> Some h
                 | None \<Rightarrow> headerGet (rs_headers resp) ''x-payment-response'')
      in case hdr of
           None \<Rightarrow> None
         | Some h \<Rightarrow>
             if h = [] then None
             else (case e_decodeReceipt e h of
                     None \<Rightarrow> None
                   | Some receipt \<Rightarrow>
                       (case rc_transaction receipt of
                          Some t \<Rightarrow> Some t
                        | None \<Rightarrow> rc_txHash receipt)))"

definition responseOk :: "Response \<Rightarrow> bool" where
  "responseOk resp = (200 \<le> rs_status resp \<and> rs_status resp \<le> 299)"

definition retryWithPayment ::
  "env \<Rightarrow> string \<Rightarrow> Options \<Rightarrow> PaymentRequired \<Rightarrow> PaymentRequirements \<Rightarrow> ExactEvmPayload \<Rightarrow> string
     \<Rightarrow> world \<Rightarrow> (error + FetchResult) \<times> world" where
  "retryWithPayment e url opts paymentRequired accepted payload txRecordId w =
     (let paymentPayload =
            \<lparr>pp_x402Version = (case pq_x402Version paymentRequired of None \<Rightarrow> 2 | Some v \<Rightarrow> v),
             pp_resource = pq_resource paymentRequired, pp_accepted = accepted, pp_payload = payload\<rparr>;
          encoded = e_encodePayload e paymentPayload;
          retryHeaders =
            agentHeaders (getAgentIdentity (state w))
              (objSet ''X-PAYMENT'' encoded (objSet ''PAYMENT-SIGNATURE'' encoded (op_headers opts)));
          req = \<lparr>rq_url = url, rq_method = optMethod opts, rq_headers = retryHeaders,
                 rq_body = op_body opts\<rparr>;
          w1 = logEvent (HttpFetch req) w
      in case e_fetch e req of
           Inl err \<Rightarrow> (Inl err, w1)
         | Inr retryResponse \<Rightarrow>
             let txHash = receiptHash e retryResponse;
                 u = (if responseOk retryResponse
                      then \<lparr>up_status = Some Settled, up_txHash = txHash, up_reason = None\<rparr>
                      else \<lparr>up_status = Some Failed, up_txHash = None, up_reason = None\<rparr>)
             in (case updateTransaction txRecordId u w1 of
                   (Inl err, w2) \<Rightarrow> (Inl err, w2)
                 | (Inr _, w2) \<Rightarrow>
                     (case BigInt (pr_amount accepted) of
                        Inl err \<Rightarrow> (Inl err, w2)
                      | Inr v \<Rightarrow>
                          (Inr \<lparr>fr_status = rs_status retryResponse,
                                fr_headers = rs_headers retryResponse,
                                fr_body = rs_body retryResponse,
                                fr_payment = Some \<lparr>pi_txHash = txHash, pi_amount = formatUnits v 6,
                                                    pi_to = pr_payTo accepted\<rparr>\<rparr>, w2))))"

definition pendingParams :: "PaymentRequirements \<Rightarrow> string \<Rightarrow> string \<Rightarrow> string \<Rightarrow> TransactionRecord" where
  "pendingParams accepted service humanAmount reason =
     \<lparr>tx_id = [], tx_timestamp = [], tx_to = pr_payTo accepted, tx_service = service,
      tx_amount = humanAmount, tx_asset = pr_asset accepted, tx_network = pr_network accepted,
      tx_txHash = None, tx_status = Pending, tx_reason = reason\<rparr>"

definition x402Fetch ::
  "env \<Rightarrow> string \<Rightarrow> Options \<Rightarrow> world \<Rightarrow> (error + FetchResult) \<times> world" where
  "x402Fetch e url opts w =
     (case getWallet (state w) of
        Inl err \<Rightarrow> (Inl err, w)
      | Inr wallet \<Rightarrow>
          if wi_frozen wallet then (Inl WalletFrozen, w)
          else
            (case getAdapter e (state w) of
               Inl err \<Rightarrow> (Inl err, w)
             | Inr adapter \<Rightarrow>
                 (case negotiate e url opts w of
                    (Inl err, w1) \<Rightarrow> (Inl err, w1)
                  | (Inr (Passthrough resp), w1) \<Rightarrow>
                      (Inr \<lparr>fr_status = rs_status resp, fr_headers = rs_headers resp,
                            fr_body = rs_body resp, fr_payment = None\<rparr>, w1)
                  | (Inr (Payment accepted paymentRequired service), w1) \<Rightarrow>
                      (case signPayment e adapter accepted w1 of
                         (Inl err, w2) \<Rightarrow> (Inl err, w2)
                       | (Inr payload, w2) \<Rightarrow>
                           (case BigInt (pr_amount accepted) of
                              Inl err \<Rightarrow> (Inl err, w2)
                            | Inr v \<Rightarrow>
                                (case addTransaction (e_randomTxId e) (e_isoNow e)
                                        (pendingParams accepted service (formatUnits v 6) (optReason opts))
                                        w2 of
                                   (Inl err, w3) \<Rightarrow> (Inl err, w3)
                                 | (Inr txRecord, w3) \<Rightarrow>
                                     retryWithPayment e url opts paymentRequired accepted payload
                                       (tx_id txRecord) w3))))))"

definition x402Prepare ::
  "env \<Rightarrow> string \<Rightarrow> Options \<Rightarrow> world \<Rightarrow> (error + PrepareResult) \<times> world" where
  "x402Prepare e url opts w =
     (case getWallet (state w) of
        Inl err \<Rightarrow> (Inl err, w)
      | Inr wallet \<Rightarrow>
          if wi_frozen wallet then (Inl WalletFrozen, w)
          else
            (case getAdapter e (state w) of
               Inl err \<Rightarrow> (Inl err, w)
             | Inr adapter \<Rightarrow>
                 (case negotiate e url opts w of
                    (Inl err, w1) \<Rightarrow> (Inl err, w1)
                  | (Inr (Passthrough resp), w1) \<Rightarrow> (Inl (Not402 (rs_status resp)), w1)
                  | (Inr (Payment accepted paymentRequired service), w1) \<Rightarrow>
                      (case adapterGetAddress e adapter of
                         Inl err \<Rightarrow> (Inl err, w1)
                       | Inr fromAddress \<Rightarrow>
                           (case USDC_DOMAIN (pr_network accepted) of
                              None \<Rightarrow> (Inl (NoUsdcDomain (pr_network accepted)), w1)
                            | Some domain \<Rightarrow>
                                (case BigInt (pr_amount accepted) of
                                   Inl err \<Rightarrow> (Inl err, w1)
                                 | Inr v \<Rightarrow>
                                     let authorization = makeAuthorization e fromAddress accepted in
                                     (case addTransaction (e_randomTxId e) (e_isoNow e)
                                             (pendingParams accepted service (formatUnits v 6)
                                                (optReason opts)) w1 of
                                        (Inl err, w2) \<Rightarrow> (Inl err, w2)
                                      | (Inr txRecord, w2) \<Rightarrow>
                                          let sessionId = e_randomSessionId e;
                                              session =
                                                \<lparr>ps_id = sessionId, ps_url = url,
                                                 ps_method = optMethod opts,
                                                 ps_headers = op_headers opts, ps_body = op_body opts,
                                                 ps_reason = optReason opts, ps_accepted = accepted,
                                                 ps_paymentRequired = paymentRequired,
                                                 ps_authorization = authorization,
                                                 ps_txRecordId = tx_id txRecord,
                                                 ps_expiresAt = au_validBefore authorization\<rparr>;
                                              w3 = w2\<lparr>paymentSessions :=
                                                         objSet sessionId session (paymentSessions w2)\<rparr>
                                          in (Inr \<lparr>prep_sessionId = sessionId, prep_domain = domain,
                                                   prep_primaryType = ''TransferWithAuthorization'',
                                                   prep_message = authorization,
                                                   prep_amount = formatUnits v 6,
                                                   prep_payTo = pr_payTo accepted,
                                                   prep_network = pr_network accepted\<rparr>, w3))))))))"

definition x402Complete ::
  "env \<Rightarrow> string \<Rightarrow> string \<Rightarrow> world \<Rightarrow> (error + FetchResult) \<times> world" where
  "x402Complete e sessionId signature w =
     (case map_of (paymentSessions w) sessionId of
        None \<Rightarrow> (Inl SessionNotFound, w)
      | Some session \<Rightarrow>
          if e_now e > ps_expiresAt session then
            (let w1 = deleteSession sessionId w
             in case updateTransaction (ps_txRecordId session) cleanupUpdate w1 of
                  (Inl err, w2) \<Rightarrow> (Inl err, w2)
                | (Inr _, w2) \<Rightarrow> (Inl SessionExpired, w2))
          else
            (let w1 = deleteSession sessionId w;
                 payload = \<lparr>pl_signature = signature, pl_authorization = ps_authorization session\<rparr>
             in retryWithPayment e (ps_url session)
                  \<lparr>op_method = Some (ps_method session), op_headers = ps_headers session,
                   op_body = ps_body session, op_reason = None\<rparr>
                  (ps_paymentRequired session) (ps_accepted session) payload
                  (ps_txRecordId session) w1))"

section \<open>Observations used in the statements\<close>

text \<open>The record \<open>updateTransaction\<close> would find for an id: the first with that id on the active wallet.\<close>

definition activeTx :: "ClawletState \<Rightarrow> string \<Rightarrow> TransactionRecord option" where
  "activeTx st i =
     (case getActiveEntry st of
        None \<Rightarrow> None
      | Some entry \<Rightarrow> find (\<lambda>t. tx_id t = i) (we_transactions entry))"

text \<open>Invariant I5 of the specification: a settled transaction has a transaction hash.\<close>

definition invariantI5 :: "ClawletState \<Rightarrow> bool" where
  "invariantI5 st =
     list_all (\<lambda>w. list_all (\<lambda>t. tx_status t = Settled \<longrightarrow> tx_txHash t \<noteq> None) (we_transactions w))
       (wallets st)"

text \<open>The effects an operation added: the trace after it, without the trace before it.\<close>

definition newEvents :: "world \<Rightarrow> world \<Rightarrow> event list" where
  "newEvents w w' = drop (length (trace w)) (trace w')"

definition hasPending :: "ClawletState \<Rightarrow> bool" where
  "hasPending st =
     list_ex (\<lambda>w. list_ex (\<lambda>t. tx_status t = Pending) (we_transactions w)) (wallets st)"

definition isFetch :: "event \<Rightarrow> bool" where
  "isFetch ev = (case ev of HttpFetch r \<Rightarrow> True | _ \<Rightarrow> False)"

definition isSign :: "event \<Rightarrow> bool" where
  "isSign ev = (case ev of SignTypedDataCall td \<Rightarrow> True | _ \<Rightarrow> False)"

definition isWrite :: "event \<Rightarrow> bool" where
  "isWrite ev = (case ev of WriteFileSync p d \<Rightarrow> True | _ \<Rightarrow> False)"

definition isPendingWrite :: "event \<Rightarrow> bool" where
  "isPendingWrite ev = (case ev of WriteFileSync p d \<Rightarrow> hasPending d | _ \<Rightarrow> False)"

text \<open>
  The ordering the specification asks of a payment flow: every call of the adapter's
  signing operation comes after a write of a document that holds a pending record.
  \<open>seen\<close> tells whether such a write has happened.
\<close>

fun signedAfterPendingPersisted :: "bool \<Rightarrow> event list \<Rightarrow> bool" where
  "signedAfterPendingPersisted seen [] = True"
| "signedAfterPendingPersisted seen (ev # evs) =
     (if isSign ev then seen \<and> signedAfterPendingPersisted seen evs
      else signedAfterPendingPersisted (seen \<or> isPendingWrite ev) evs)"

text \<open>
  The orders in which the two flows really produce their effects. Single-shot: the
  initial request, the signing call, the write of the pending record, the retry, the
  write of the outcome; a flow that fails stops earlier. Prepare: the initial request,
  then the write of the pending record, and no signing call.
\<close>

definition singleShotOrder :: "event list \<Rightarrow> bool" where
  "singleShotOrder evs =
     (case evs of
        [] \<Rightarrow> True
      | [a] \<Rightarrow> isFetch a
      | [a, b] \<Rightarrow> isFetch a \<and> isSign b
      | [a, b, c, d] \<Rightarrow> isFetch a \<and> isSign b \<and> isPendingWrite c \<and> isFetch d
      | [a, b, c, d, f] \<Rightarrow> isFetch a \<and> isSign b \<and> isPendingWrite c \<and> isFetch d \<and> isWrite f
      | _ \<Rightarrow> False)"

definition prepareOrder :: "event list \<Rightarrow> bool" where
  "prepareOrder evs =
     (case evs of
        [] \<Rightarrow> True
      | [a] \<Rightarrow> isFetch a
      | [a, b] \<Rightarrow> isFetch a \<and> isPendingWrite b
      | _ \<Rightarrow> False)"

text \<open>
  The rules engine rejects the negotiated amount or service: the negotiation of
  \<open>negotiate\<close> gets as far as \<open>enforceRules\<close>, which throws.
\<close>

definition rulesReject :: "env \<Rightarrow> string \<Rightarrow> Options \<Rightarrow> world \<Rightarrow> bool" where
  "rulesReject e url opts w =
     (case e_fetch e \<lparr>rq_url = url, rq_method = optMethod opts, rq_headers = op_headers opts,
                      rq_body = op_body opts\<rparr> of
        Inl err \<Rightarrow> False
      | Inr resp \<Rightarrow>
          rs_status resp = 402 \<and>
          (case readPaymentRequired e resp of
             Inl err \<Rightarrow> False
           | Inr pq \<Rightarrow>
               (case findAcceptedOption (e_toLowerCase e) (pq_accepts pq) of
                  None \<Rightarrow> False
                | Some accepted \<Rightarrow>
                    pr_network accepted = getNetworkCaip2 (state w) \<and>
                    (case e_hostname e url of
                       Inl err \<Rightarrow> False
                     | Inr service \<Rightarrow>
                         isl (enforceRules (e_toLowerCase e) (take 10 (e_isoNow e))
                                (pr_amount accepted) service 6 (state w))))))"

text \<open>
  What the specification calls \<open>todaySpent\<close>: over the settled transactions whose timestamp
  begins with today's date, the sum of their amounts in atomic units, \<open>atomic\<close> giving the
  amount of a record.
\<close>

definition settledToday :: "string \<Rightarrow> TransactionRecord \<Rightarrow> bool" where
  "settledToday today tx =
     (tx_status tx = Settled \<and> take (length today) (tx_timestamp tx) = today)"

definition todaySpentSpec :: "(TransactionRecord \<Rightarrow> int) \<Rightarrow> string \<Rightarrow> TransactionRecord list \<Rightarrow> int" where
  "todaySpentSpec atomic today txs = sum_list (map atomic (filter (settledToday today) txs))"

text \<open>
  The persist algorithm the specification asks for: the document written to a temporary
  file, the temporary file renamed onto the state file.
\<close>

definition atomicPersistSpec :: "string \<Rightarrow> world \<Rightarrow> event list" where
  "atomicPersistSpec tmp w = [WriteFileSync tmp (state w), RenameSync tmp (statePath w)]"

text \<open>What the store does instead: every file effect is a write of the state file itself.\<close>

definition inPlaceWrite :: "string \<Rightarrow> event \<Rightarrow> bool" where
  "inPlaceWrite path ev =
     (case ev of
        WriteFileSync p d \<Rightarrow> p = path
      | RenameSync a b \<Rightarrow> False
      | _ \<Rightarrow> True)"

text \<open>
  Operations of the broker in sequence, each with what it reads from outside; the process
  after a list of them. \<open>preparesSession sid\<close> tells a prepare that draws \<open>sid\<close> as its
  random session id.
\<close>

datatype brokerOp =
    Fetch env string Options
  | Prepare env string Options
  | Complete env string string
  | Sweep env

fun runOp :: "brokerOp \<Rightarrow> world \<Rightarrow> world" where
  "runOp (Fetch e url opts) w = snd (x402Fetch e url opts w)"
| "runOp (Prepare e url opts) w = snd (x402Prepare e url opts w)"
| "runOp (Complete e sid sig) w = snd (x402Complete e sid sig w)"
| "runOp (Sweep e) w = snd (cleanupSessions e w)"

fun runOps :: "brokerOp list \<Rightarrow> world \<Rightarrow> world" where
  "runOps [] w = w"
| "runOps (op # ops) w = runOps ops (runOp op w)"

fun preparesSession :: "string \<Rightarrow> brokerOp \<Rightarrow> bool" where
  "preparesSession sid (Prepare e url opts) = (e_randomSessionId e = sid)"
| "preparesSession sid _ = False"

text \<open>A ledger entry marked as the sweeper and \<open>x402Complete\<close> mark an expired session's entry.\<close>

definition markedExpired :: "ClawletState \<Rightarrow> string \<Rightarrow> bool" where
  "markedExpired st i =
     (case activeTx st i of
        None \<Rightarrow> False
      | Some tx \<Rightarrow> tx_status tx = Failed \<and> tx_reason tx = ''Payment session expired'')"

text \<open>
  From \<open>w\<close> to \<open>w'\<close> the state path is kept, the trace only grows, and every file effect
  added is a write of the state file itself.
\<close>

definition writesInPlace :: "world \<Rightarrow> world \<Rightarrow> bool" where
  "writesInPlace w w' =
     (statePath w' = statePath w \<and> take (length (trace w)) (trace w') = trace w
      \<and> list_all (inPlaceWrite (statePath w)) (newEvents w w'))"

section \<open>Concrete scenarios\<close>

text \<open>
  A wallet with a daily cap of 0.10 USDC and one transaction of 0.09 USDC settled on
  2026-01-02; variants of it carry a per-transaction limit, a blocklist and the frozen flag.
\<close>

definition demoTx :: TransactionRecord where
  "demoTx =
     \<lparr>tx_id = ''t1'', tx_timestamp = ''2026-01-02T09:00:00.000Z'', tx_to = ''0xP'',
      tx_service = ''api.example'', tx_amount = ''0.09'', tx_asset = ''0xU'',
      tx_network = ''eip155:84532'', tx_txHash = Some ''0xab'', tx_status = Settled,
      tx_reason = ''x402 payment''\<rparr>"

text \<open>
  A ledger of five records: 0.5 USDC settled the day before, then, on 2026-01-02,
  0.05 USDC settled, 0.5 USDC pending, 0.5 USDC failed and 0.04 USDC settled.
  \<open>demoAtomic\<close> reads the amount of a record in atomic units.
\<close>

definition demoLedger :: "TransactionRecord list" where
  "demoLedger =
     [demoTx\<lparr>tx_id := ''t0'', tx_timestamp := ''2026-01-01T23:59:59.000Z'', tx_amount := ''0.5''\<rparr>,
      demoTx\<lparr>tx_amount := ''0.05''\<rparr>,
      demoTx\<lparr>tx_id := ''t3'', tx_amount := ''0.5'', tx_txHash := None, tx_status := Pending\<rparr>,
      demoTx\<lparr>tx_id := ''t4'', tx_amount := ''0.5'', tx_txHash := None, tx_status := Failed\<rparr>,
      demoTx\<lparr>tx_id := ''t5'', tx_timestamp := ''2026-01-02T09:30:00.000Z'', tx_amount := ''0.04''\<rparr>]"

definition demoAtomic :: "TransactionRecord \<Rightarrow> int" where
  "demoAtomic tx = (case parseUnits (tx_amount tx) 6 of Inl e \<Rightarrow> 0 | Inr a \<Rightarrow> a)"

definition demoEntry :: "SpendingRules \<Rightarrow> TransactionRecord list \<Rightarrow> WalletEntry" where
  "demoEntry rules txs =
     \<lparr>we_id = ''w1'', we_label = ''Wallet 1'',
      we_wallet = \<lparr>wi_address = ''0xA'', wi_createdAt = ''2026-01-01T00:00:00.000Z'', wi_frozen = False\<rparr>,
      we_adapterConfig = LocalKeyConfig ''0xk'', we_rules = rules, we_transactions = txs,
      we_agentIdentity = None\<rparr>"

definition demoState :: "SpendingRules \<Rightarrow> TransactionRecord list \<Rightarrow> ClawletState" where
  "demoState rules txs =
     \<lparr>wallets = [demoEntry rules txs], activeWalletId = Some ''w1'', network = BaseSepolia\<rparr>"

definition capRules :: SpendingRules where
  "capRules = DEFAULT_RULES\<lparr>dailyCap := Some ''0.10''\<rparr>"

definition capAndLimitRules :: SpendingRules where
  "capAndLimitRules = DEFAULT_RULES\<lparr>maxPerTransaction := Some ''0.5'', dailyCap := Some ''1''\<rparr>"

definition blockRules :: SpendingRules where
  "blockRules =
     DEFAULT_RULES\<lparr>allowedServices := [''example''], blockedServices := [''Evil.Example'']\<rparr>"

text \<open>A blocklist whose pattern is \<open>CAF\<close> followed by the capital E with acute accent (U+00C9).\<close>

definition accentRules :: SpendingRules where
  "accentRules = DEFAULT_RULES\<lparr>blockedServices := [''CAF'' @ [CHR 0xC9]]\<rparr>"

definition blockAndLimitRules :: SpendingRules where
  "blockAndLimitRules = blockRules\<lparr>maxPerTransaction := Some ''0.01''\<rparr>"

text \<open>
  The upstream server of the scenarios answers 402 with one Base Sepolia USDC offer of
  100000 atomic units until the request carries \<open>X-PAYMENT\<close>, then 200 with no
  payment-response header.
\<close>

definition demoRequirements :: PaymentRequirements where
  "demoRequirements =
     \<lparr>pr_scheme = ''exact'', pr_network = ''eip155:84532'',
      pr_asset = ''0x036cbd53842c5426634e7929541ec2318f3dcf7e'', pr_amount = ''100000'',
      pr_payTo = ''0xP'', pr_maxTimeoutSeconds = 600\<rparr>"

definition demoPaymentRequired :: PaymentRequired where
  "demoPaymentRequired =
     \<lparr>pq_x402Version = Some 2, pq_accepts = [demoRequirements], pq_resource = None\<rparr>"

definition demoServer :: "Request \<Rightarrow> error + Response" where
  "demoServer req =
     (if headerGet (rq_headers req) ''x-payment'' = None
      then Inr \<lparr>rs_status = 402, rs_headers = [], rs_body = ''doc''\<rparr>
      else Inr \<lparr>rs_status = 200, rs_headers = [], rs_body = ''ok''\<rparr>)"

definition demoEnv :: env where
  "demoEnv =
     \<lparr>e_now = 1000, e_isoNow = ''2026-01-02T10:00:00.000Z'', e_randomTxId = ''t2'',
      e_randomNonce = ''n'', e_randomSessionId = ''s1'', e_fetch = demoServer,
      e_decodePaymentRequiredHeader = (\<lambda>h. Inr demoPaymentRequired),
      e_parsePaymentRequiredBody = (\<lambda>b. Inr demoPaymentRequired),
      e_encodePayload = (\<lambda>p. ''enc''), e_decodeReceipt = (\<lambda>h. None),
      e_hostname = (\<lambda>u. Inr ''api.example''), e_toLowerCase = toLowerCase,
      e_constructAdapter = (\<lambda>c. None),
      e_adapterAddress = (\<lambda>c. Inr ''0xA''), e_adapterSign = (\<lambda>c td. Inr ''0xsig'')\<rparr>"

definition demoOptions :: Options where
  "demoOptions = \<lparr>op_method = None, op_headers = [], op_body = None, op_reason = None\<rparr>"

definition demoWorld :: "SpendingRules \<Rightarrow> TransactionRecord list \<Rightarrow> world" where
  "demoWorld rules txs =
     \<lparr>state = demoState rules txs, statePath = ''.clawlet/state.json'', paymentSessions = [],
      trace = []\<rparr>"

definition demoLegacy :: LegacyClawletState where
  "demoLegacy =
     \<lparr>lg_adapterConfig = None,
      lg_wallet = Some \<lparr>wi_address = ''0xA'', wi_createdAt = ''2026-01-01T00:00:00.000Z'',
                        wi_frozen = False\<rparr>,
      lg_rules = Some capRules, lg_transactions = Some [demoTx]\<rparr>"

definition demoPendingTx :: TransactionRecord where
  "demoPendingTx = demoTx\<lparr>tx_txHash := None, tx_status := Pending\<rparr>"

definition demoOkServer :: "Request \<Rightarrow> error + Response" where
  "demoOkServer req = Inr \<lparr>rs_status = 200, rs_headers = [], rs_body = ''ok''\<rparr>"

text \<open>
  A server that answers 200 with a payment-response header, and a runtime in which that
  header decodes to a receipt with the transaction hash \<open>0xfeed\<close>.
\<close>

definition demoReceiptServer :: "Request \<Rightarrow> error + Response" where
  "demoReceiptServer req =
     Inr \<lparr>rs_status = 200, rs_headers = [(''PAYMENT-RESPONSE'', ''rcpt'')], rs_body = ''ok''\<rparr>"

definition demoReceiptEnv :: env where
  "demoReceiptEnv =
     demoEnv\<lparr>e_fetch := demoReceiptServer,
             e_decodeReceipt :=
               (\<lambda>h. if h = ''rcpt''
                    then Some \<lparr>rc_transaction = Some ''0xfeed'', rc_txHash = None\<rparr>
                    else None)\<rparr>"

definition demoPayload :: ExactEvmPayload where
  "demoPayload =
     \<lparr>pl_signature = ''0xsig'',
      pl_authorization = \<lparr>au_from = ''0xA'', au_to = ''0xP'', au_value = ''100000'',
                          au_validAfter = 1000, au_validBefore = 1600, au_nonce = ''0xn''\<rparr>\<rparr>"

definition demoFrozenWorld :: world where
  "demoFrozenWorld =
     \<lparr>state = \<lparr>wallets = [(demoEntry DEFAULT_RULES [])
                             \<lparr>we_wallet := \<lparr>wi_address = ''0xA'', wi_createdAt = ''c'',
                                             wi_frozen = True\<rparr>\<rparr>],
               activeWalletId = Some ''w1'', network = BaseSepolia\<rparr>,
      statePath = ''.clawlet/state.json'', paymentSessions = [], trace = []\<rparr>"

text \<open>The process after \<open>x402Prepare\<close> in the scenario: one session \<open>s1\<close>, expiring at 1600.\<close>

definition demoPreparedWorld :: world where
  "demoPreparedWorld =
     snd (x402Prepare demoEnv ''https://api.example/x'' demoOptions (demoWorld DEFAULT_RULES []))"

definition demoSession :: PaymentSession where
  "demoSession =
     \<lparr>ps_id = ''s1'', ps_url = ''https://api.example/x'', ps_method = ''GET'', ps_headers = [],
      ps_body = None, ps_reason = ''x402 payment'', ps_accepted = demoRequirements,
      ps_paymentRequired = demoPaymentRequired, ps_authorization = pl_authorization demoPayload,
      ps_txRecordId = ''t2'', ps_expiresAt = 1600\<rparr>"

section \<open>Evaluation rules\<close>

lemmas lib_defs =
  asciiLowerChar_def asciiLowerCase_def latin1Small_def lowerChar_def toLowerCase_def
  startsWith_def trimTrailingZeros_def padStart0_def
  isDigit_def digitVal_def digitsToNat_def decToNat_def digitChar_def natToString.simps
  isSpace_def stripSpace_def hexVal_def radixLiteral_def BigInt_def splitAtDot_def
  parseUnits_def formatUnits_def Let_def

lemmas store_defs =
  persist_def migrateIfNeeded_def emptyState_def initStore_def getActiveEntry_def
  requireActiveEntry_def getNetworkCaip2_def modifyActiveEntry_def addTransaction_def
  applyUpdate_def updateTransaction_def DEFAULT_RULES_def

lemmas rules_defs =
  getTodaySpent_def checkPerTransaction_def checkDailyCap_def serviceMatches_def
  checkBlocklist_def checkAllowlist_def enforceRules_def

lemmas demo_defs =
  demoTx_def demoLedger_def demoAtomic_def demoEntry_def demoState_def capRules_def capAndLimitRules_def
  blockRules_def accentRules_def blockAndLimitRules_def demoRequirements_def
  demoPaymentRequired_def demoServer_def demoEnv_def demoOptions_def demoWorld_def
  demoLegacy_def demoPendingTx_def demoOkServer_def demoReceiptServer_def demoReceiptEnv_def
  demoPayload_def demoFrozenWorld_def demoPreparedWorld_def demoSession_def

lemmas trace_defs =
  newEvents_def settledToday_def todaySpentSpec_def hasPending_def isFetch_def isSign_def
  isWrite_def isPendingWrite_def singleShotOrder_def prepareOrder_def rulesReject_def
  atomicPersistSpec_def inPlaceWrite_def invariantI5_def markedExpired_def

lemmas broker_defs =
  getWallet_def getAdapter_def getAgentIdentity_def adapterGetAddress_def
  adapterSignTypedData_def CHAIN_IDS_def USDC_def USDC_DOMAIN_def objDelete_def headerGet_def
  logEvent_def deleteSession_def cleanupUpdate_def cleanupSessions_def optMethod_def optReason_def
  readPaymentRequired_def negotiate_def makeAuthorization_def signPayment_def agentHeaders_def
  receiptHash_def responseOk_def retryWithPayment_def pendingParams_def x402Fetch_def
  x402Prepare_def x402Complete_def activeTx_def

section \<open>Rules engine: daily cap and blocklist\<close>

lemma enforceRules_steps:
  assumes "requireActiveEntry st = Inr entry" and "BigInt amt = Inr a"
  shows "enforceRules lower today amt service d st =
     (case checkPerTransaction (we_rules entry) a d of
        Inl e \<Rightarrow> Inl e
      | Inr _ \<Rightarrow>
          (case checkDailyCap today (we_rules entry) (we_transactions entry) a d of
             Inl e \<Rightarrow> Inl e
           | Inr _ \<Rightarrow>
               (case checkBlocklist lower (we_rules entry) service of
                  Inl e \<Rightarrow> Inl e
                | Inr _ \<Rightarrow> checkAllowlist lower (we_rules entry) service)))"
  using assms by (simp add: enforceRules_def)

text \<open>\<open>s.includes(p)\<close> holds exactly when \<open>s\<close> is some text, then \<open>p\<close>, then some text.\<close>

lemma startsWith_iff: "startsWith s p \<longleftrightarrow> (\<exists>post. s = p @ post)"
proof
  assume "startsWith s p"
  then have "s = p @ drop (length p) s"
    by (metis append_take_drop_id startsWith_def)
  then show "\<exists>post. s = p @ post" ..
next
  assume "\<exists>post. s = p @ post"
  then show "startsWith s p" by (auto simp add: startsWith_def)
qed

lemma str_includes_iff: "str_includes s p \<longleftrightarrow> (\<exists>pre post. s = pre @ p @ post)"
proof (induction s)
  case Nil
  then show ?case by simp
next
  case (Cons c cs)
  show ?case
  proof
    assume "str_includes (c # cs) p"
    then consider "startsWith (c # cs) p" | "str_includes cs p" by auto
    then show "\<exists>pre post. c # cs = pre @ p @ post"
    proof cases
      case 1
      then obtain post where "c # cs = p @ post" using startsWith_iff by blast
      then have "c # cs = [] @ p @ post" by simp
      then show ?thesis by blast
    next
      case 2
      then obtain pre post where "cs = pre @ p @ post" using Cons.IH by blast
      then have "c # cs = (c # pre) @ p @ post" by simp
      then show ?thesis by blast
    qed
  next
    assume "\<exists>pre post. c # cs = pre @ p @ post"
    then obtain pre post where eq: "c # cs = pre @ p @ post" by blast
    show "str_includes (c # cs) p"
    proof (cases pre)
      case Nil
      then have "startsWith (c # cs) p" using eq startsWith_iff by auto
      then show ?thesis by simp
    next
      case (Cons x pre')
      then have "cs = pre' @ p @ post" using eq by simp
      then have "str_includes cs p" using Cons.IH by blast
      then show ?thesis by simp
    qed
  qed
qed

lemma checkBlocklist_iff:
  "checkBlocklist lower rules service =
     (if \<exists>p\<in>set (blockedServices rules). \<exists>pre post. lower service = pre @ lower p @ post
      then Inl ServiceBlocked else Inr ())"
  by (auto simp add: checkBlocklist_def serviceMatches_def str_includes_iff list_ex_iff)

lemma checkAllowlist_iff:
  "checkAllowlist lower rules service =
     (if allowedServices rules = []
         \<or> (\<exists>p\<in>set (allowedServices rules). \<exists>pre post. lower service = pre @ lower p @ post)
      then Inr () else Inl ServiceNotAllowed)"
  by (auto simp add: checkAllowlist_def serviceMatches_def str_includes_iff list_ex_iff)

lemma checkPerTransaction_within:
  assumes "\<forall>m. maxPerTransaction rules = Some m \<longrightarrow> (\<exists>mx. parseUnits m d = Inr mx \<and> a \<le> mx)"
  shows "checkPerTransaction rules a d = Inr ()"
  using assms by (auto simp add: checkPerTransaction_def split: option.splits)

text \<open>The loop of \<open>getTodaySpent\<close> adds up the settled records of today and no others.\<close>

lemma getTodaySpentFrom_sum:
  assumes "\<forall>t\<in>set txs. settledToday today t \<longrightarrow> parseUnits (tx_amount t) 6 = Inr (atomic t)"
  shows "getTodaySpentFrom today tot txs = Inr (tot + todaySpentSpec atomic today txs)"
  using assms
  by (induction txs arbitrary: tot)
     (auto simp add: settledToday_def todaySpentSpec_def startsWith_def)

lemma checkDailyCap_sum:
  assumes "dailyCap rules = Some c" and "parseUnits c d = Inr X"
    and "\<forall>t\<in>set txs. settledToday today t \<longrightarrow> parseUnits (tx_amount t) 6 = Inr (atomic t)"
  shows "checkDailyCap today rules txs a d =
     (if todaySpentSpec atomic today txs + a > X then Inl ExceedsDailyCap else Inr ())"
  using assms(1) assms(2) getTodaySpentFrom_sum [OF assms(3), of 0]
  by (simp add: checkDailyCap_def getTodaySpent_def)

lemma checkDailyCap_within:
  assumes "\<forall>c. dailyCap rules = Some c \<longrightarrow>
             (\<exists>cap. parseUnits c d = Inr cap
                \<and> (\<forall>t\<in>set txs. settledToday today t \<longrightarrow> parseUnits (tx_amount t) 6 = Inr (atomic t))
                \<and> todaySpentSpec atomic today txs + a \<le> cap)"
  shows "checkDailyCap today rules txs a d = Inr ()"
proof (cases "dailyCap rules")
  case None
  then show ?thesis by (simp add: checkDailyCap_def)
next
  case (Some c)
  then obtain cap where cap: "parseUnits c d = Inr cap"
    and amounts: "\<forall>t\<in>set txs. settledToday today t \<longrightarrow> parseUnits (tx_amount t) 6 = Inr (atomic t)"
    and le: "todaySpentSpec atomic today txs + a \<le> cap"
    using assms by blast
  show ?thesis
    using checkDailyCap_sum [OF Some cap amounts, of a] le by simp
qed

text \<open>
  C5, as the code has it. Let the daily cap of the active wallet read as \<open>X\<close> atomic units
  at 6 decimals, and let \<open>spent\<close> be the sum, in atomic units, of the amounts of the ledger's
  records that are settled and whose timestamp begins with today's date (no other record
  counts). A payment of \<open>X - spent\<close> is permitted when no other rule stands in the way: it
  is within the per-transaction limit if one is set, no blocked pattern occurs in the
  service, and an allowed pattern occurs in it if the allowlist is not empty, service and
  patterns lower-cased by the runtime (\<open>lower\<close>). A payment of \<open>X - spent + 1\<close> that is within
  the per-transaction limit is rejected with the daily-cap error. The sum is computed from
  the transaction list of the state that \<open>enforceRules\<close> is given, on every call.
\<close>

theorem enforceRules_daily_cap_boundary:
  assumes "requireActiveEntry st = Inr entry"
    and "dailyCap (we_rules entry) = Some c"
    and "parseUnits c 6 = Inr X"
    and "\<forall>t\<in>set (we_transactions entry).
           settledToday today t \<longrightarrow> parseUnits (tx_amount t) 6 = Inr (atomic t)"
    and "spent = todaySpentSpec atomic today (we_transactions entry)"
    and "BigInt amt = Inr (X - spent)"
    and "BigInt amt1 = Inr (X - spent + 1)"
  shows "((\<forall>m. maxPerTransaction (we_rules entry) = Some m \<longrightarrow>
             (\<exists>mx. parseUnits m 6 = Inr mx \<and> X - spent \<le> mx)) \<longrightarrow>
          (\<forall>p\<in>set (blockedServices (we_rules entry)).
             \<forall>pre post. lower service \<noteq> pre @ lower p @ post) \<longrightarrow>
          (allowedServices (we_rules entry) = []
             \<or> (\<exists>p\<in>set (allowedServices (we_rules entry)).
                   \<exists>pre post. lower service = pre @ lower p @ post)) \<longrightarrow>
          enforceRules lower today amt service 6 st = Inr ())
       \<and> ((\<forall>m. maxPerTransaction (we_rules entry) = Some m \<longrightarrow>
             (\<exists>mx. parseUnits m 6 = Inr mx \<and> X - spent + 1 \<le> mx)) \<longrightarrow>
          enforceRules lower today amt1 service 6 st = Inl ExceedsDailyCap)"
proof -
  have ok: "checkDailyCap today (we_rules entry) (we_transactions entry) (X - spent) 6 = Inr ()"
    using checkDailyCap_sum [OF assms(2) assms(3) assms(4), of "X - spent"] assms(5) by simp
  have over: "checkDailyCap today (we_rules entry) (we_transactions entry) (X - spent + 1) 6
      = Inl ExceedsDailyCap"
    using checkDailyCap_sum [OF assms(2) assms(3) assms(4), of "X - spent + 1"] assms(5) by simp
  have permitted: "enforceRules lower today amt service 6 st = Inr ()"
    if "\<forall>m. maxPerTransaction (we_rules entry) = Some m \<longrightarrow>
             (\<exists>mx. parseUnits m 6 = Inr mx \<and> X - spent \<le> mx)"
      and "\<forall>p\<in>set (blockedServices (we_rules entry)).
             \<forall>pre post. lower service \<noteq> pre @ lower p @ post"
      and "allowedServices (we_rules entry) = []
             \<or> (\<exists>p\<in>set (allowedServices (we_rules entry)).
                   \<exists>pre post. lower service = pre @ lower p @ post)"
  proof -
    have limit: "checkPerTransaction (we_rules entry) (X - spent) 6 = Inr ()"
      using that(1) by (rule checkPerTransaction_within)
    have block: "checkBlocklist lower (we_rules entry) service = Inr ()"
      using that(2) by (simp add: checkBlocklist_iff)
    have allow: "checkAllowlist lower (we_rules entry) service = Inr ()"
      using that(3) by (simp add: checkAllowlist_iff)
    show ?thesis
      by (simp add: enforceRules_steps [OF assms(1) assms(6)] limit ok block allow)
  qed
  have rejected: "enforceRules lower today amt1 service 6 st = Inl ExceedsDailyCap"
    if "\<forall>m. maxPerTransaction (we_rules entry) = Some m \<longrightarrow>
             (\<exists>mx. parseUnits m 6 = Inr mx \<and> X - spent + 1 \<le> mx)"
  proof -
    have limit: "checkPerTransaction (we_rules entry) (X - spent + 1) 6 = Inr ()"
      using that by (rule checkPerTransaction_within)
    show ?thesis
      by (simp add: enforceRules_steps [OF assms(1) assms(7)] limit over)
  qed
  show ?thesis
    using permitted rejected by blast
qed

lemma demo_capRules_active:
  "requireActiveEntry (demoState capRules demoLedger) = Inr (demoEntry capRules demoLedger)"
  by (simp add: store_defs demoState_def demoEntry_def)

theorem enforceRules_daily_cap_boundary_witness:
  "todaySpentSpec demoAtomic ''2026-01-02'' demoLedger = 90000
   \<and> enforceRules toLowerCase ''2026-01-02'' ''10000'' ''api.example'' 6
        (demoState capRules demoLedger) = Inr ()
   \<and> enforceRules toLowerCase ''2026-01-02'' ''10001'' ''api.example'' 6
        (demoState capRules demoLedger) = Inl ExceedsDailyCap"
proof -
  have cap: "dailyCap (we_rules (demoEntry capRules demoLedger)) = Some ''0.10''"
    by (simp add: demo_defs)
  have X: "parseUnits ''0.10'' 6 = Inr 100000"
    by (simp add: lib_defs)
  have amounts: "\<forall>t\<in>set (we_transactions (demoEntry capRules demoLedger)).
      settledToday ''2026-01-02'' t \<longrightarrow> parseUnits (tx_amount t) 6 = Inr (demoAtomic t)"
    by (simp add: demoEntry_def demoLedger_def demoTx_def demoAtomic_def settledToday_def lib_defs)
  have spent: "todaySpentSpec demoAtomic ''2026-01-02'' demoLedger = 90000"
    by (simp add: demoLedger_def demoTx_def demoAtomic_def settledToday_def todaySpentSpec_def
        lib_defs)
  have spent': "(90000::int) = todaySpentSpec demoAtomic ''2026-01-02''
      (we_transactions (demoEntry capRules demoLedger))"
    using spent by (simp add: demoEntry_def)
  have a: "BigInt ''10000'' = Inr (100000 - 90000)"
    by (simp add: lib_defs)
  have a1: "BigInt ''10001'' = Inr (100000 - 90000 + 1)"
    by (simp add: lib_defs)
  have rules: "maxPerTransaction (we_rules (demoEntry capRules demoLedger)) = None"
    "blockedServices (we_rules (demoEntry capRules demoLedger)) = []"
    "allowedServices (we_rules (demoEntry capRules demoLedger)) = []"
    by (simp_all add: demoEntry_def capRules_def DEFAULT_RULES_def)
  show ?thesis
    using enforceRules_daily_cap_boundary [OF demo_capRules_active cap X amounts spent' a a1,
        where service = "''api.example''" and lower = toLowerCase] rules spent
    by simp
qed

text \<open>
  C5 as stated fails: with a per-transaction limit of 0.5 USDC beside a daily cap of
  1 USDC and an empty ledger, so that nothing is spent today, the payment of the whole cap
  is not permitted, and the payment of one unit more is rejected with the per-transaction
  error, not the daily one.
\<close>

theorem enforceRules_daily_cap_counterexample:
  "dailyCap (we_rules (demoEntry capAndLimitRules [])) = Some ''1''
   \<and> parseUnits ''1'' 6 = Inr 1000000
   \<and> we_transactions (demoEntry capAndLimitRules []) = []
   \<and> getTodaySpent ''2026-01-02'' (we_transactions (demoEntry capAndLimitRules [])) = Inr 0
   \<and> enforceRules toLowerCase ''2026-01-02'' ''1000000'' ''api.example'' 6
        (demoState capAndLimitRules []) = Inl ExceedsPerTransactionLimit
   \<and> enforceRules toLowerCase ''2026-01-02'' ''1000001'' ''api.example'' 6
        (demoState capAndLimitRules []) = Inl ExceedsPerTransactionLimit"
  by (simp add: rules_defs demo_defs store_defs lib_defs)

text \<open>
  C6, as the code has it. Let a pattern \<open>p\<close> of the blocklist occur in the service once both
  are lower-cased by the runtime (\<open>lower\<close>): the lower-cased service is some text, then the
  lower-cased pattern, then some text. Then \<open>enforceRules\<close> never permits the payment,
  whatever the allowlist holds. The error is the blocked one whenever the amount parses, is
  within the per-transaction limit if one is set, and, if a daily cap is set, does not take
  the settled records of today over it: these two checks run before the blocklist.
\<close>

theorem enforceRules_blocklist_precedence:
  assumes "requireActiveEntry st = Inr entry"
    and "p \<in> set (blockedServices (we_rules entry))"
    and "lower service = pre @ lower p @ post"
  shows "enforceRules lower today amt service d st \<noteq> Inr ()
       \<and> (\<forall>a. BigInt amt = Inr a \<longrightarrow>
            (\<forall>m. maxPerTransaction (we_rules entry) = Some m \<longrightarrow>
               (\<exists>mx. parseUnits m d = Inr mx \<and> a \<le> mx)) \<longrightarrow>
            (\<forall>c. dailyCap (we_rules entry) = Some c \<longrightarrow>
               (\<exists>cap. parseUnits c d = Inr cap
                  \<and> (\<forall>t\<in>set (we_transactions entry).
                        settledToday today t \<longrightarrow> parseUnits (tx_amount t) 6 = Inr (atomic t))
                  \<and> todaySpentSpec atomic today (we_transactions entry) + a \<le> cap)) \<longrightarrow>
            enforceRules lower today amt service d st = Inl ServiceBlocked)"
proof -
  have blocked: "checkBlocklist lower (we_rules entry) service = Inl ServiceBlocked"
    using assms(2) assms(3) by (auto simp add: checkBlocklist_iff)
  have never: "enforceRules lower today amt service d st \<noteq> Inr ()"
  proof (cases "BigInt amt")
    case (Inl e)
    then show ?thesis using assms(1) by (simp add: enforceRules_def)
  next
    case (Inr a)
    show ?thesis
      using blocked by (simp add: enforceRules_steps [OF assms(1) Inr] split: sum.splits)
  qed
  have error: "enforceRules lower today amt service d st = Inl ServiceBlocked"
    if amt: "BigInt amt = Inr a"
      and lim: "\<forall>m. maxPerTransaction (we_rules entry) = Some m \<longrightarrow>
               (\<exists>mx. parseUnits m d = Inr mx \<and> a \<le> mx)"
      and cap: "\<forall>c. dailyCap (we_rules entry) = Some c \<longrightarrow>
               (\<exists>cap. parseUnits c d = Inr cap
                  \<and> (\<forall>t\<in>set (we_transactions entry).
                        settledToday today t \<longrightarrow> parseUnits (tx_amount t) 6 = Inr (atomic t))
                  \<and> todaySpentSpec atomic today (we_transactions entry) + a \<le> cap)"
    for a
  proof -
    have limit: "checkPerTransaction (we_rules entry) a d = Inr ()"
      using lim by (rule checkPerTransaction_within)
    have daily: "checkDailyCap today (we_rules entry) (we_transactions entry) a d = Inr ()"
      using cap by (rule checkDailyCap_within)
    show ?thesis
      by (simp add: enforceRules_steps [OF assms(1) amt] limit daily blocked)
  qed
  show ?thesis
    using never error by blast
qed

theorem enforceRules_blocklist_precedence_witness:
  "''example'' \<in> set (allowedServices blockRules)
   \<and> toLowerCase ''api.EVIL.example'' = ''api.evil.'' @ toLowerCase ''example'' @ []
   \<and> enforceRules toLowerCase ''2026-01-02'' ''100000'' ''api.EVIL.example'' 6
        (demoState blockRules []) = Inl ServiceBlocked
   \<and> enforceRules toLowerCase ''2026-01-02'' ''100000'' (''caf'' @ [CHR 0xE9] @ ''.example'') 6
        (demoState accentRules []) = Inl ServiceBlocked"
proof -
  have active: "requireActiveEntry (demoState blockRules []) = Inr (demoEntry blockRules [])"
    by (simp add: store_defs demo_defs)
  have p: "''Evil.Example'' \<in> set (blockedServices (we_rules (demoEntry blockRules [])))"
    by (simp add: demo_defs store_defs)
  have occurs: "toLowerCase ''api.EVIL.example'' = ''api.'' @ toLowerCase ''Evil.Example'' @ []"
    by (simp add: lib_defs)
  have al: "''example'' \<in> set (allowedServices blockRules)"
    "toLowerCase ''api.EVIL.example'' = ''api.evil.'' @ toLowerCase ''example'' @ []"
    by (simp_all add: demo_defs store_defs lib_defs)
  have a: "BigInt ''100000'' = Inr 100000"
    by (simp add: lib_defs)
  have rules: "maxPerTransaction (we_rules (demoEntry blockRules [])) = None"
    "dailyCap (we_rules (demoEntry blockRules [])) = None"
    by (simp_all add: demo_defs store_defs)
  have active2: "requireActiveEntry (demoState accentRules []) = Inr (demoEntry accentRules [])"
    by (simp add: store_defs demo_defs)
  have p2: "''CAF'' @ [CHR 0xC9] \<in> set (blockedServices (we_rules (demoEntry accentRules [])))"
    by (simp add: demo_defs store_defs)
  have occurs2: "toLowerCase (''caf'' @ [CHR 0xE9] @ ''.example'')
      = [] @ toLowerCase (''CAF'' @ [CHR 0xC9]) @ ''.example''"
    by (simp add: lib_defs)
  have rules2: "maxPerTransaction (we_rules (demoEntry accentRules [])) = None"
    "dailyCap (we_rules (demoEntry accentRules [])) = None"
    by (simp_all add: demo_defs store_defs)
  have ascii: "enforceRules toLowerCase ''2026-01-02'' ''100000'' ''api.EVIL.example'' 6
      (demoState blockRules []) = Inl ServiceBlocked"
    using enforceRules_blocklist_precedence [OF active p occurs, where today = "''2026-01-02''"
        and amt = "''100000''" and d = 6] a rules
    by simp
  have accent: "enforceRules toLowerCase ''2026-01-02'' ''100000''
      (''caf'' @ [CHR 0xE9] @ ''.example'') 6 (demoState accentRules []) = Inl ServiceBlocked"
    using enforceRules_blocklist_precedence [OF active2 p2 occurs2, where today = "''2026-01-02''"
        and amt = "''100000''" and d = 6] a rules2
    by simp
  show ?thesis
    using al ascii accent by simp
qed

text \<open>
  C6 as stated fails: a blocked service with an amount over the per-transaction limit is
  rejected with the per-transaction error, not the blocked one.
\<close>

theorem enforceRules_blocklist_counterexample:
  "''Evil.Example'' \<in> set (blockedServices blockAndLimitRules)
   \<and> toLowerCase ''api.evil.example'' = ''api.'' @ toLowerCase ''Evil.Example'' @ []
   \<and> enforceRules toLowerCase ''2026-01-02'' ''100000'' ''api.evil.example'' 6
        (demoState blockAndLimitRules []) = Inl ExceedsPerTransactionLimit"
  by (simp add: rules_defs demo_defs store_defs lib_defs)
section \<open>State store and ledger: what a write through the active entry does\<close>

lemma find_Some_holds: "find P xs = Some x \<Longrightarrow> P x"
  by (induction xs) (auto split: if_splits)

lemma find_mapFirst:
  "find P xs = Some x \<Longrightarrow> P (f x) \<Longrightarrow> find P (mapFirst P f xs) = Some (f x)"
  by (induction xs) (auto split: if_splits)

lemma getActiveEntry_modify:
  assumes "getActiveEntry st = Some entry" and "we_id (f entry) = we_id entry"
  shows "getActiveEntry (modifyActiveEntry f st) = Some (f entry)"
proof -
  from assms(1) obtain i where i: "activeWalletId st = Some i" "i \<noteq> []"
    "find (\<lambda>w. we_id w = i) (wallets st) = Some entry"
    by (auto simp: getActiveEntry_def split: option.splits if_splits)
  have "we_id entry = i"
    using find_Some_holds [OF i(3)] by simp
  with assms(2) have "find (\<lambda>w. we_id w = i) (mapFirst (\<lambda>w. we_id w = i) f (wallets st)) = Some (f entry)"
    using find_mapFirst [OF i(3), of f] by simp
  with i show ?thesis
    by (simp add: getActiveEntry_def modifyActiveEntry_def)
qed

lemma activeTx_Some:
  "activeTx st i = Some tx \<Longrightarrow>
   \<exists>entry. getActiveEntry st = Some entry \<and> find (\<lambda>t. tx_id t = i) (we_transactions entry) = Some tx"
  by (auto simp: activeTx_def split: option.splits)

lemma tx_id_applyUpdate [simp]: "tx_id (applyUpdate u tx) = tx_id tx"
  by (simp add: applyUpdate_def)

text \<open>
  \<open>updateTransaction\<close> on an id the active wallet holds: the record is rewritten in
  place, the document is persisted once, and nothing else of the process changes.
\<close>

lemma updateTransaction_found:
  assumes "activeTx (state w) i = Some tx"
  shows "\<exists>w'. updateTransaction i u w = (Inr (applyUpdate u tx), w')
           \<and> activeTx (state w') i = Some (applyUpdate u tx)
           \<and> paymentSessions w' = paymentSessions w
           \<and> statePath w' = statePath w
           \<and> trace w' = trace w @ [WriteFileSync (statePath w) (state w')]"
proof -
  from activeTx_Some [OF assms] obtain entry where
    e: "getActiveEntry (state w) = Some entry"
    and t: "find (\<lambda>t. tx_id t = i) (we_transactions entry) = Some tx"
    by blast
  let ?f = "\<lambda>en. en\<lparr>we_transactions :=
                 mapFirst (\<lambda>t. tx_id t = i) (applyUpdate u) (we_transactions en)\<rparr>"
  have id_tx: "tx_id tx = i"
    using find_Some_holds [OF t] by simp
  have e': "getActiveEntry (modifyActiveEntry ?f (state w)) = Some (?f entry)"
    by (rule getActiveEntry_modify [OF e]) simp
  have t': "find (\<lambda>t. tx_id t = i) (we_transactions (?f entry)) = Some (applyUpdate u tx)"
    using find_mapFirst [OF t, of "applyUpdate u"] id_tx by simp
  show ?thesis
    using e t e' t'
    by (simp add: updateTransaction_def requireActiveEntry_def persist_def activeTx_def Let_def)
qed

lemma updateTransaction_missing:
  assumes "activeTx (state w) i = None"
  shows "\<exists>err. updateTransaction i u w = (Inl err, w)"
  using assms
  by (auto simp: updateTransaction_def requireActiveEntry_def activeTx_def split: option.splits)

lemma updateTransaction_sessions:
  "paymentSessions (snd (updateTransaction i u w)) = paymentSessions w"
  by (simp add: updateTransaction_def persist_def Let_def split: sum.splits option.splits)

text \<open>
  C10. A legacy document without the \<open>wallet\<close> field or without the \<open>adapterConfig\<close>
  field migrates to the empty document: no wallet entry, no active wallet, network
  \<open>base\<close>; its rules and transactions are not carried over. \<open>initStore\<close> keeps that
  document in memory and writes it to the state file.
\<close>

theorem migrateIfNeeded_legacy_without_wallet:
  assumes "lg_wallet legacy = None \<or> lg_adapterConfig legacy = None"
  shows "migrateIfNeeded randomId (RawLegacy legacy)
           = \<lparr>wallets = [], activeWalletId = None, network = Base\<rparr>
       \<and> state (initStore dataDir path randomId dirExists (Some (RawLegacy legacy)))
           = \<lparr>wallets = [], activeWalletId = None, network = Base\<rparr>
       \<and> last (trace (initStore dataDir path randomId dirExists (Some (RawLegacy legacy))))
           = WriteFileSync path \<lparr>wallets = [], activeWalletId = None, network = Base\<rparr>"
proof -
  have m: "migrateIfNeeded randomId (RawLegacy legacy)
      = \<lparr>wallets = [], activeWalletId = None, network = Base\<rparr>"
    using assms by (auto simp: migrateIfNeeded_def split: option.splits)
  show ?thesis
    using m by (simp add: initStore_def persist_def Let_def)
qed

theorem migrateIfNeeded_legacy_without_wallet_witness:
  "lg_rules demoLegacy = Some capRules \<and> lg_transactions demoLegacy = Some [demoTx]
   \<and> migrateIfNeeded ''0a1b2c3d4e5f6071'' (RawLegacy demoLegacy)
       = \<lparr>wallets = [], activeWalletId = None, network = Base\<rparr>
   \<and> state (initStore ''.clawlet'' ''.clawlet/state.json'' ''0a1b2c3d4e5f6071'' True
              (Some (RawLegacy demoLegacy)))
       = \<lparr>wallets = [], activeWalletId = None, network = Base\<rparr>"
proof -
  have h: "lg_wallet demoLegacy = None \<or> lg_adapterConfig demoLegacy = None"
    by (simp add: demoLegacy_def)
  show ?thesis
    using migrateIfNeeded_legacy_without_wallet [OF h, of "''0a1b2c3d4e5f6071''" "''.clawlet''"
        "''.clawlet/state.json''" True]
    by (simp add: demoLegacy_def)
qed

section \<open>Retry, settlement and the receipt\<close>

text \<open>
  What \<open>retryWithPayment\<close> leaves on the record when the server answers the retry: on a
  2xx answer the record is settled, and its hash is the receipt's when the response
  carries a receipt that decodes to a non-empty hash; in every other case the hash the
  record had stays. On any other status the record is failed.
\<close>

lemma retryWithPayment_outcome:
  assumes tx: "activeTx (state w) tid = Some tx"
    and srv: "\<And>req. rq_url req = url \<Longrightarrow> e_fetch e req = Inr resp"
  shows "\<exists>r w'. retryWithPayment e url opts pq acc payload tid w = (r, w')
           \<and> activeTx (state w') tid =
               Some (applyUpdate
                 (if responseOk resp
                  then \<lparr>up_status = Some Settled, up_txHash = receiptHash e resp, up_reason = None\<rparr>
                  else \<lparr>up_status = Some Failed, up_txHash = None, up_reason = None\<rparr>) tx)"
proof -
  let ?u = "if responseOk resp
            then \<lparr>up_status = Some Settled, up_txHash = receiptHash e resp, up_reason = None\<rparr>
            else \<lparr>up_status = Some Failed, up_txHash = None, up_reason = None\<rparr>"
  let ?w1 = "logEvent (HttpFetch \<lparr>rq_url = url, rq_method = optMethod opts,
      rq_headers = agentHeaders (getAgentIdentity (state w))
        (objSet ''X-PAYMENT'' (e_encodePayload e
            \<lparr>pp_x402Version = (case pq_x402Version pq of None \<Rightarrow> 2 | Some v \<Rightarrow> v),
             pp_resource = pq_resource pq, pp_accepted = acc, pp_payload = payload\<rparr>)
          (objSet ''PAYMENT-SIGNATURE'' (e_encodePayload e
            \<lparr>pp_x402Version = (case pq_x402Version pq of None \<Rightarrow> 2 | Some v \<Rightarrow> v),
             pp_resource = pq_resource pq, pp_accepted = acc, pp_payload = payload\<rparr>)
            (op_headers opts))),
      rq_body = op_body opts\<rparr>) w"
  have "activeTx (state ?w1) tid = Some tx"
    using tx by (simp add: logEvent_def)
  from updateTransaction_found [OF this, of ?u] obtain w2 where
    u: "updateTransaction tid ?u ?w1 = (Inr (applyUpdate ?u tx), w2)"
    and a: "activeTx (state w2) tid = Some (applyUpdate ?u tx)"
    by blast
  show ?thesis
    using u a srv
    by (cases "BigInt (pr_amount acc)") (simp_all add: retryWithPayment_def Let_def)
qed


lemma demo_fetch_run:
  "x402Fetch demoEnv ''https://api.example/x'' demoOptions (demoWorld DEFAULT_RULES []) =
     (Inr \<lparr>fr_status = 200, fr_headers = [], fr_body = ''ok'',
           fr_payment = Some \<lparr>pi_txHash = None, pi_amount = ''0.1'', pi_to = ''0xP''\<rparr>\<rparr>,
      \<lparr>state = demoState DEFAULT_RULES
           [pendingParams demoRequirements ''api.example'' ''0.1'' ''x402 payment''
              \<lparr>tx_id := ''t2'', tx_timestamp := ''2026-01-02T10:00:00.000Z'', tx_status := Settled\<rparr>],
       statePath = ''.clawlet/state.json'', paymentSessions = [],
       trace =
         [HttpFetch \<lparr>rq_url = ''https://api.example/x'', rq_method = ''GET'', rq_headers = [],
                     rq_body = None\<rparr>,
          SignTypedDataCall
            \<lparr>td_domain = \<lparr>dm_name = ''USDC'', dm_version = ''2'', dm_chainId = 84532,
                           dm_verifyingContract = ''0x036CbD53842c5426634e7929541eC2318f3dCF7e''\<rparr>,
             td_primaryType = ''TransferWithAuthorization'',
             td_message = pl_authorization demoPayload\<rparr>,
          WriteFileSync ''.clawlet/state.json''
            (demoState DEFAULT_RULES
               [pendingParams demoRequirements ''api.example'' ''0.1'' ''x402 payment''
                  \<lparr>tx_id := ''t2'', tx_timestamp := ''2026-01-02T10:00:00.000Z''\<rparr>]),
          HttpFetch \<lparr>rq_url = ''https://api.example/x'', rq_method = ''GET'',
                     rq_headers = [(''PAYMENT-SIGNATURE'', ''enc''), (''X-PAYMENT'', ''enc'')],
                     rq_body = None\<rparr>,
          WriteFileSync ''.clawlet/state.json''
            (demoState DEFAULT_RULES
               [pendingParams demoRequirements ''api.example'' ''0.1'' ''x402 payment''
                  \<lparr>tx_id := ''t2'', tx_timestamp := ''2026-01-02T10:00:00.000Z'',
                    tx_status := Settled\<rparr>])]\<rparr>)"
  by (simp add: demo_defs store_defs rules_defs broker_defs lib_defs)

section \<open>The effects of the broker's steps\<close>

lemma newEvents_append [simp]: "trace w' = trace w @ evs \<Longrightarrow> newEvents w w' = evs"
  by (simp add: newEvents_def)

lemma newEvents_same [simp]: "newEvents w w = []"
  by (simp add: newEvents_def)

text \<open>\<open>negotiate\<close> issues the upstream request once and touches nothing else.\<close>

lemma negotiate_world:
  "snd (negotiate e url opts w) =
     logEvent (HttpFetch \<lparr>rq_url = url, rq_method = optMethod opts, rq_headers = op_headers opts,
                          rq_body = op_body opts\<rparr>) w"
  by (simp add: negotiate_def Let_def split: sum.splits option.splits)

lemma negotiate_rulesReject:
  "rulesReject e url opts w \<Longrightarrow> isl (fst (negotiate e url opts w))"
  by (auto simp: rulesReject_def negotiate_def Let_def logEvent_def split: sum.splits option.splits)

text \<open>\<open>signPayment\<close> either fails before the adapter is asked, or asks it exactly once.\<close>

lemma signPayment_world:
  "signPayment e adapter requirements w = (r, w2) \<Longrightarrow>
     (w2 = w \<and> isl r) \<or> (\<exists>td. w2 = logEvent (SignTypedDataCall td) w)"
  by (auto simp: signPayment_def Let_def split: sum.splits option.splits)

lemma signPayment_signed:
  "signPayment e adapter requirements w = (Inr payload, w2) \<Longrightarrow>
     \<exists>td. w2 = logEvent (SignTypedDataCall td) w"
  by (auto simp: signPayment_def Let_def split: sum.splits option.splits)

lemma mapFirst_member: "find P xs = Some x \<Longrightarrow> f x \<in> set (mapFirst P f xs)"
  by (induction xs) (auto split: if_splits)

lemma hasPending_append:
  assumes "getActiveEntry st = Some entry" and "tx_status txr = Pending"
  shows "hasPending (modifyActiveEntry
            (\<lambda>en. en\<lparr>we_transactions := we_transactions en @ [txr]\<rparr>) st)"
proof -
  from assms(1) obtain i where i: "activeWalletId st = Some i"
    "find (\<lambda>w. we_id w = i) (wallets st) = Some entry"
    by (auto simp: getActiveEntry_def split: option.splits if_splits)
  let ?f = "\<lambda>en. en\<lparr>we_transactions := we_transactions en @ [txr]\<rparr>"
  have mem: "?f entry \<in> set (mapFirst (\<lambda>w. we_id w = i) ?f (wallets st))"
    by (rule mapFirst_member [OF i(2)])
  have pend: "\<exists>t\<in>set (we_transactions (?f entry)). tx_status t = Pending"
    using assms(2) by simp
  from mem pend have
    "\<exists>w\<in>set (mapFirst (\<lambda>w. we_id w = i) ?f (wallets st)).
       \<exists>t\<in>set (we_transactions w). tx_status t = Pending"
    by blast
  then show ?thesis
    using i(1) by (simp add: hasPending_def modifyActiveEntry_def list_ex_iff)
qed

text \<open>
  \<open>addTransaction\<close> of a pending record either fails with nothing changed, or appends the
  record and writes the document, which then holds a pending record.
\<close>

lemma addTransaction_world:
  assumes "addTransaction rid ts params w = (r, w3)" and "tx_status params = Pending"
  shows "(w3 = w \<and> isl r)
       \<or> (\<exists>st'. hasPending st' \<and> w3 = w\<lparr>state := st', trace := trace w @ [WriteFileSync (statePath w) st']\<rparr>)"
proof (cases "getActiveEntry (state w)")
  case None
  then show ?thesis
    using assms(1) by (auto simp: addTransaction_def requireActiveEntry_def)
next
  case (Some entry)
  have "hasPending (modifyActiveEntry
      (\<lambda>en. en\<lparr>we_transactions := we_transactions en @ [params\<lparr>tx_id := rid, tx_timestamp := ts\<rparr>]\<rparr>)
      (state w))"
    by (rule hasPending_append [OF Some]) (simp add: assms(2))
  then show ?thesis
    using assms(1) Some
    by (auto simp: addTransaction_def requireActiveEntry_def persist_def Let_def)
qed

lemma updateTransaction_world:
  "updateTransaction i u w = (r, w') \<Longrightarrow>
     (w' = w \<and> isl r)
     \<or> (\<exists>st'. w' = w\<lparr>state := st', trace := trace w @ [WriteFileSync (statePath w) st']\<rparr>)"
  by (auto simp: updateTransaction_def persist_def Let_def split: sum.splits option.splits)

text \<open>
  \<open>retryWithPayment\<close> issues the retry, then writes the outcome to the ledger when the
  request returned and the record is found. The session table is not touched.
\<close>

lemma retryWithPayment_world:
  assumes "retryWithPayment e url opts pq acc payload tid w = (r, w')"
  shows "\<exists>req. w' = logEvent (HttpFetch req) w
           \<or> (\<exists>st'. w' = w\<lparr>state := st',
                       trace := trace w @ [HttpFetch req, WriteFileSync (statePath w) st']\<rparr>)"
proof -
  let ?req = "\<lparr>rq_url = url, rq_method = optMethod opts,
      rq_headers = agentHeaders (getAgentIdentity (state w))
        (objSet ''X-PAYMENT'' (e_encodePayload e
            \<lparr>pp_x402Version = (case pq_x402Version pq of None \<Rightarrow> 2 | Some v \<Rightarrow> v),
             pp_resource = pq_resource pq, pp_accepted = acc, pp_payload = payload\<rparr>)
          (objSet ''PAYMENT-SIGNATURE'' (e_encodePayload e
            \<lparr>pp_x402Version = (case pq_x402Version pq of None \<Rightarrow> 2 | Some v \<Rightarrow> v),
             pp_resource = pq_resource pq, pp_accepted = acc, pp_payload = payload\<rparr>)
            (op_headers opts))),
      rq_body = op_body opts\<rparr>"
  show ?thesis
  proof (cases "e_fetch e ?req")
    case (Inl err)
    then show ?thesis
      using assms by (auto simp: retryWithPayment_def Let_def)
  next
    case (Inr resp)
    let ?u = "if responseOk resp
              then \<lparr>up_status = Some Settled, up_txHash = receiptHash e resp, up_reason = None\<rparr>
              else \<lparr>up_status = Some Failed, up_txHash = None, up_reason = None\<rparr>"
    obtain r2 w2 where u: "updateTransaction tid ?u (logEvent (HttpFetch ?req) w) = (r2, w2)"
      by (cases "updateTransaction tid ?u (logEvent (HttpFetch ?req) w)") blast
    have w': "w' = w2"
      using assms Inr u
      by (auto simp: retryWithPayment_def Let_def split: sum.splits if_splits)
    from updateTransaction_world [OF u] show ?thesis
      unfolding w' by (auto simp: logEvent_def intro!: exI [of _ ?req])
  qed
qed

lemma retryWithPayment_sessions:
  "paymentSessions (snd (retryWithPayment e url opts pq acc payload tid w)) = paymentSessions w"
proof -
  obtain r w' where rw: "retryWithPayment e url opts pq acc payload tid w = (r, w')"
    by (cases "retryWithPayment e url opts pq acc payload tid w") blast
  from retryWithPayment_world [OF rw] show ?thesis
    unfolding rw by (auto simp: logEvent_def)
qed

section \<open>Single-shot flow: rejection before signing, and the order of effects\<close>

lemma x402Fetch_negotiation_fails:
  assumes "negotiate e url opts w = (Inl err, w1)"
  shows "\<exists>err'. x402Fetch e url opts w = (Inl err', w) \<or> x402Fetch e url opts w = (Inl err', w1)"
  using assms by (auto simp: x402Fetch_def split: sum.splits)

text \<open>
  C1. When the active wallet is frozen, or the rules engine rejects the negotiated amount
  or service, \<open>x402Fetch\<close> fails, the document (and with it the transaction list of every
  wallet) is unchanged, and among the effects of the call there is no call of the
  adapter's signing operation and no write of the state file.
\<close>

theorem x402Fetch_rejected_before_signing:
  assumes "(\<exists>wallet. getWallet (state w) = Inr wallet \<and> wi_frozen wallet) \<or> rulesReject e url opts w"
  shows "isl (fst (x402Fetch e url opts w))
       \<and> state (snd (x402Fetch e url opts w)) = state w
       \<and> \<not> list_ex isSign (newEvents w (snd (x402Fetch e url opts w)))
       \<and> \<not> list_ex isWrite (newEvents w (snd (x402Fetch e url opts w)))"
  using assms
proof
  assume "\<exists>wallet. getWallet (state w) = Inr wallet \<and> wi_frozen wallet"
  then have "x402Fetch e url opts w = (Inl WalletFrozen, w)"
    by (auto simp: x402Fetch_def)
  then show ?thesis by simp
next
  assume "rulesReject e url opts w"
  from negotiate_rulesReject [OF this] obtain err w1 where
    n: "negotiate e url opts w = (Inl err, w1)"
    by (cases "negotiate e url opts w") (auto simp: isl_def)
  have w1: "w1 = logEvent (HttpFetch \<lparr>rq_url = url, rq_method = optMethod opts,
      rq_headers = op_headers opts, rq_body = op_body opts\<rparr>) w"
    using negotiate_world [of e url opts w] n by simp
  from x402Fetch_negotiation_fails [OF n] obtain err' where
    "x402Fetch e url opts w = (Inl err', w) \<or> x402Fetch e url opts w = (Inl err', w1)"
    by blast
  then show ?thesis
  proof
    assume "x402Fetch e url opts w = (Inl err', w)"
    then show ?thesis by simp
  next
    assume "x402Fetch e url opts w = (Inl err', w1)"
    then show ?thesis
      using w1 by (simp add: logEvent_def isSign_def isWrite_def)
  qed
qed

lemma demo_overcap_rejected:
  "rulesReject demoEnv ''https://api.example/x'' demoOptions (demoWorld capRules [demoTx])"
  by (simp add: trace_defs demo_defs store_defs rules_defs broker_defs lib_defs)

theorem x402Fetch_rejected_before_signing_witness:
  "(isl (fst (x402Fetch demoEnv ''https://api.example/x'' demoOptions demoFrozenWorld))
    \<and> state (snd (x402Fetch demoEnv ''https://api.example/x'' demoOptions demoFrozenWorld))
        = state demoFrozenWorld)
   \<and> (isl (fst (x402Fetch demoEnv ''https://api.example/x'' demoOptions (demoWorld capRules [demoTx])))
      \<and> state (snd (x402Fetch demoEnv ''https://api.example/x'' demoOptions
                       (demoWorld capRules [demoTx])))
          = state (demoWorld capRules [demoTx]))"
proof -
  have frozen: "(\<exists>wallet. getWallet (state demoFrozenWorld) = Inr wallet \<and> wi_frozen wallet)
      \<or> rulesReject demoEnv ''https://api.example/x'' demoOptions demoFrozenWorld"
    by (simp add: demo_defs store_defs broker_defs)
  have rejected: "(\<exists>wallet. getWallet (state (demoWorld capRules [demoTx])) = Inr wallet \<and> wi_frozen wallet)
      \<or> rulesReject demoEnv ''https://api.example/x'' demoOptions (demoWorld capRules [demoTx])"
    using demo_overcap_rejected by simp
  show ?thesis
    using x402Fetch_rejected_before_signing [OF frozen]
      x402Fetch_rejected_before_signing [OF rejected]
    by simp
qed

lemma pendingParams_status [simp]: "tx_status (pendingParams accepted service amt reason) = Pending"
  by (simp add: pendingParams_def)

lemma addTransaction_pending:
  assumes "addTransaction rid ts (pendingParams accepted service amt reason) w = (r, w3)"
  shows "(w3 = w \<and> isl r)
       \<or> (\<exists>st' txr. hasPending st' \<and> r = Inr txr
            \<and> w3 = w\<lparr>state := st', trace := trace w @ [WriteFileSync (statePath w) st']\<rparr>)"
proof (cases r)
  case (Inl err)
  then have "w3 = w"
    using assms by (auto simp: addTransaction_def Let_def split: sum.splits)
  with Inl show ?thesis by simp
next
  case (Inr txr)
  with addTransaction_world [OF assms] show ?thesis by auto
qed

lemma x402Fetch_order:
  "singleShotOrder (newEvents w (snd (x402Fetch e url opts w)))"
proof -
  let ?H = "HttpFetch \<lparr>rq_url = url, rq_method = optMethod opts, rq_headers = op_headers opts,
                        rq_body = op_body opts\<rparr>"
  obtain rn w1 where n: "negotiate e url opts w = (rn, w1)"
    by (cases "negotiate e url opts w") blast
  have w1: "w1 = logEvent ?H w"
    using negotiate_world [of e url opts w] n by simp
  have t1: "trace w1 = trace w @ [?H]"
    using w1 by (simp add: logEvent_def)
  show ?thesis
  proof (cases "getWallet (state w)")
    case (Inl err)
    then show ?thesis by (simp add: x402Fetch_def singleShotOrder_def)
  next
    case wal: (Inr wallet)
    show ?thesis
    proof (cases "wi_frozen wallet \<or> isl (getAdapter e (state w))")
      case True
      then have "snd (x402Fetch e url opts w) = w"
        using wal by (auto simp: x402Fetch_def isl_def)
      then show ?thesis by (simp add: singleShotOrder_def)
    next
      case False
      then obtain adapter where ad: "getAdapter e (state w) = Inr adapter" and nf: "\<not> wi_frozen wallet"
        by (cases "getAdapter e (state w)") auto
      show ?thesis
      proof (cases rn)
        case (Inl err)
        then have "snd (x402Fetch e url opts w) = w1"
          using wal ad nf n by (simp add: x402Fetch_def)
        then show ?thesis
          using t1 by (simp add: singleShotOrder_def isFetch_def)
      next
        case rnr: (Inr neg)
        show ?thesis
        proof (cases neg)
          case (Passthrough resp)
          then have "snd (x402Fetch e url opts w) = w1"
            using wal ad nf n rnr by (simp add: x402Fetch_def)
          then show ?thesis
            using t1 by (simp add: singleShotOrder_def isFetch_def)
        next
          case pay: (Payment accepted pq service)
          obtain rs w2 where s: "signPayment e adapter accepted w1 = (rs, w2)"
            by (cases "signPayment e adapter accepted w1") blast
          show ?thesis
          proof (cases rs)
            case (Inl err)
            then have x: "snd (x402Fetch e url opts w) = w2"
              using wal ad nf n rnr pay s by (simp add: x402Fetch_def)
            from signPayment_world [OF s] have
              "trace w2 = trace w @ [?H] \<or> (\<exists>td. trace w2 = trace w @ [?H, SignTypedDataCall td])"
              using t1 by (auto simp: logEvent_def)
            then show ?thesis
              unfolding x by (auto simp: singleShotOrder_def isFetch_def isSign_def)
          next
            case sok: (Inr payload)
            from signPayment_signed [OF s [unfolded sok]] obtain td where
              w2: "w2 = logEvent (SignTypedDataCall td) w1"
              by blast
            have t2: "trace w2 = trace w @ [?H, SignTypedDataCall td]"
              using w2 t1 by (simp add: logEvent_def)
            show ?thesis
            proof (cases "BigInt (pr_amount accepted)")
              case (Inl err)
              then have "snd (x402Fetch e url opts w) = w2"
                using wal ad nf n rnr pay s sok by (simp add: x402Fetch_def)
              then show ?thesis
                using t2 by (simp add: singleShotOrder_def isFetch_def isSign_def)
            next
              case big: (Inr v)
              let ?params = "pendingParams accepted service (formatUnits v 6) (optReason opts)"
              obtain ra w3 where a: "addTransaction (e_randomTxId e) (e_isoNow e) ?params w2 = (ra, w3)"
                by (cases "addTransaction (e_randomTxId e) (e_isoNow e) ?params w2") blast
              from addTransaction_pending [OF a] show ?thesis
              proof
                assume f: "w3 = w2 \<and> isl ra"
                then have "snd (x402Fetch e url opts w) = w2"
                  using wal ad nf n rnr pay s sok big a by (auto simp: x402Fetch_def isl_def)
                then show ?thesis
                  using t2 by (simp add: singleShotOrder_def isFetch_def isSign_def)
              next
                assume "\<exists>st' txr. hasPending st' \<and> ra = Inr txr
                    \<and> w3 = w2\<lparr>state := st', trace := trace w2 @ [WriteFileSync (statePath w2) st']\<rparr>"
                then obtain st' txr where
                  hp: "hasPending st'" and ra: "ra = Inr txr"
                  and w3: "w3 = w2\<lparr>state := st', trace := trace w2 @ [WriteFileSync (statePath w2) st']\<rparr>"
                  by blast
                have t3: "trace w3 = trace w @ [?H, SignTypedDataCall td, WriteFileSync (statePath w2) st']"
                  using w3 t2 by simp
                obtain rr w4 where
                  r: "retryWithPayment e url opts pq accepted payload (tx_id txr) w3 = (rr, w4)"
                  by (cases "retryWithPayment e url opts pq accepted payload (tx_id txr) w3") blast
                have x: "snd (x402Fetch e url opts w) = w4"
                  using wal ad nf n rnr pay s sok big a ra r by (simp add: x402Fetch_def)
                from retryWithPayment_world [OF r] obtain req where
                  "w4 = logEvent (HttpFetch req) w3
                   \<or> (\<exists>st2. w4 = w3\<lparr>state := st2,
                         trace := trace w3 @ [HttpFetch req, WriteFileSync (statePath w3) st2]\<rparr>)"
                  by blast
                then have "trace w4 = trace w @ [?H, SignTypedDataCall td,
                      WriteFileSync (statePath w2) st', HttpFetch req]
                  \<or> (\<exists>st2. trace w4 = trace w @ [?H, SignTypedDataCall td,
                      WriteFileSync (statePath w2) st', HttpFetch req,
                      WriteFileSync (statePath w3) st2])"
                  using t3 by (auto simp: logEvent_def)
                then show ?thesis
                  unfolding x using hp
                  by (auto simp: singleShotOrder_def isFetch_def isSign_def isPendingWrite_def
                      isWrite_def)
              qed
            qed
          qed
        qed
      qed
    qed
  qed
qed

lemma x402Prepare_order:
  "prepareOrder (newEvents w (snd (x402Prepare e url opts w)))"
proof -
  let ?H = "HttpFetch \<lparr>rq_url = url, rq_method = optMethod opts, rq_headers = op_headers opts,
                        rq_body = op_body opts\<rparr>"
  obtain rn w1 where n: "negotiate e url opts w = (rn, w1)"
    by (cases "negotiate e url opts w") blast
  have w1: "w1 = logEvent ?H w"
    using negotiate_world [of e url opts w] n by simp
  have t1: "trace w1 = trace w @ [?H]"
    using w1 by (simp add: logEvent_def)
  obtain r w' where p: "x402Prepare e url opts w = (r, w')"
    by (cases "x402Prepare e url opts w") blast
  have "w' = w \<or> w' = w1
      \<or> (\<exists>st' ss. hasPending st' \<and>
            w' = w1\<lparr>state := st', trace := trace w1 @ [WriteFileSync (statePath w1) st'],
                    paymentSessions := ss\<rparr>)"
    using p n
    by (auto simp: x402Prepare_def Let_def
        split: sum.splits if_splits option.splits Negotiation.splits prod.splits
        dest!: addTransaction_pending)
  then show ?thesis
    unfolding p using t1
    by (auto simp: prepareOrder_def isFetch_def isPendingWrite_def)
qed




section \<open>Two-phase flow: sessions are one-shot and expire\<close>

lemma deleteSession_world [simp]:
  "state (deleteSession i w) = state w"
  "statePath (deleteSession i w) = statePath w"
  "paymentSessions (deleteSession i w) = objDelete i (paymentSessions w)"
  "trace (deleteSession i w) = trace w @ [SessionDelete i]"
  by (simp_all add: deleteSession_def logEvent_def)

lemma map_of_objDelete_same [simp]: "map_of (objDelete k ps) k = None"
  by (induction ps) (auto simp: objDelete_def)

lemma map_of_objDelete_absent: "map_of ps k = None \<Longrightarrow> map_of (objDelete j ps) k = None"
  by (induction ps) (auto simp: objDelete_def split: if_splits)

lemma map_of_objSet_other: "k \<noteq> j \<Longrightarrow> map_of (objSet j v ps) k = map_of ps k"
  by (induction ps) auto

lemma negotiate_sessions:
  "negotiate e url opts w = (r, w1) \<Longrightarrow> paymentSessions w1 = paymentSessions w"
  using negotiate_world [of e url opts w] by (simp add: logEvent_def)

lemma signPayment_sessions:
  "signPayment e adapter requirements w = (r, w2) \<Longrightarrow> paymentSessions w2 = paymentSessions w"
  by (auto simp: logEvent_def dest!: signPayment_world)

lemma addTransaction_sessions:
  "addTransaction rid ts params w = (r, w3) \<Longrightarrow> paymentSessions w3 = paymentSessions w"
  by (auto simp: addTransaction_def persist_def Let_def split: sum.splits)

lemma retryWithPayment_sessionsD:
  "retryWithPayment e url opts pq acc payload tid w = (r, w') \<Longrightarrow>
     paymentSessions w' = paymentSessions w"
  using retryWithPayment_sessions [of e url opts pq acc payload tid w] by simp

lemma updateTransaction_sessionsD:
  "updateTransaction i u w = (r, w') \<Longrightarrow> paymentSessions w' = paymentSessions w"
  using updateTransaction_sessions [of i u w] by simp

lemma x402Fetch_sessions:
  "paymentSessions (snd (x402Fetch e url opts w)) = paymentSessions w"
  by (auto simp: x402Fetch_def retryWithPayment_sessions
      split: sum.splits prod.splits Negotiation.splits
      dest!: negotiate_sessions signPayment_sessions addTransaction_sessions
        retryWithPayment_sessionsD)

lemma x402Complete_absent_stays:
  assumes "map_of (paymentSessions w) sid = None"
  shows "map_of (paymentSessions (snd (x402Complete e j sig w))) sid = None"
  using assms
  by (auto simp: x402Complete_def Let_def map_of_objDelete_absent retryWithPayment_sessions
      split: option.splits prod.splits sum.splits
      dest!: retryWithPayment_sessionsD updateTransaction_sessionsD)

lemma x402Prepare_absent_stays:
  assumes "map_of (paymentSessions w) sid = None" and "e_randomSessionId e \<noteq> sid"
  shows "map_of (paymentSessions (snd (x402Prepare e url opts w))) sid = None"
  using assms
  by (auto simp: x402Prepare_def Let_def map_of_objSet_other
      split: sum.splits prod.splits Negotiation.splits option.splits
      dest!: negotiate_sessions addTransaction_sessions)

lemma cleanupLoop_absent_stays:
  "map_of (paymentSessions w) sid = None \<Longrightarrow>
     map_of (paymentSessions (snd (cleanupLoop now ss w))) sid = None"
proof (induction ss arbitrary: w)
  case Nil
  then show ?case by simp
next
  case (Cons p ss)
  obtain i session where p: "p = (i, session)" by (cases p)
  show ?case
  proof (cases "now > ps_expiresAt session")
    case False
    then show ?thesis using Cons p by simp
  next
    case True
    obtain r w1 where u: "updateTransaction (ps_txRecordId session) cleanupUpdate w = (r, w1)"
      by (cases "updateTransaction (ps_txRecordId session) cleanupUpdate w") blast
    have s1: "paymentSessions w1 = paymentSessions w"
      by (rule updateTransaction_sessionsD [OF u])
    show ?thesis
    proof (cases r)
      case (Inl err)
      then show ?thesis using True p u s1 Cons.prems by simp
    next
      case (Inr tx)
      have "map_of (paymentSessions (deleteSession i w1)) sid = None"
        using Cons.prems s1 by (simp add: map_of_objDelete_absent)
      from Cons.IH [OF this] show ?thesis
        using True p u Inr by simp
    qed
  qed
qed

lemma runOp_absent_stays:
  assumes "map_of (paymentSessions w) sid = None" and "\<not> preparesSession sid op"
  shows "map_of (paymentSessions (runOp op w)) sid = None"
proof (cases op)
  case (Fetch e url opts)
  then show ?thesis using assms(1) by (simp add: x402Fetch_sessions)
next
  case (Prepare e url opts)
  then show ?thesis using assms by (simp add: x402Prepare_absent_stays)
next
  case (Complete e j sig)
  then show ?thesis using assms(1) by (simp add: x402Complete_absent_stays)
next
  case (Sweep e)
  then show ?thesis using assms(1) by (simp add: cleanupSessions_def cleanupLoop_absent_stays)
qed

lemma runOps_absent_stays:
  "map_of (paymentSessions w) sid = None \<Longrightarrow> \<not> list_ex (preparesSession sid) ops \<Longrightarrow>
     map_of (paymentSessions (runOps ops w)) sid = None"
proof (induction ops arbitrary: w)
  case Nil
  then show ?case by simp
next
  case (Cons op ops)
  from Cons.prems have "map_of (paymentSessions (runOp op w)) sid = None"
    by (simp add: runOp_absent_stays)
  from Cons.IH [OF this] Cons.prems(2) show ?case by simp
qed

lemma x402Complete_absent:
  "map_of (paymentSessions w) sid = None \<Longrightarrow> x402Complete e sid sig w = (Inl SessionNotFound, w)"
  by (simp add: x402Complete_def)

lemma x402Complete_removes:
  "map_of (paymentSessions (snd (x402Complete e sid sig w))) sid = None"
  by (auto simp: x402Complete_def Let_def retryWithPayment_sessions
      split: option.splits prod.splits sum.splits
      dest!: retryWithPayment_sessionsD updateTransaction_sessionsD)

text \<open>The effects of the retry: the request, then at most one write of the state file.\<close>

lemma retryWithPayment_request:
  "\<exists>req rest. trace (snd (retryWithPayment e url opts pq acc payload tid w))
                 = trace w @ HttpFetch req # rest
     \<and> rq_url req = url \<and> rq_method req = optMethod opts \<and> rq_body req = op_body opts
     \<and> \<not> list_ex isFetch rest"
proof -
  let ?req = "\<lparr>rq_url = url, rq_method = optMethod opts,
      rq_headers = agentHeaders (getAgentIdentity (state w))
        (objSet ''X-PAYMENT'' (e_encodePayload e
            \<lparr>pp_x402Version = (case pq_x402Version pq of None \<Rightarrow> 2 | Some v \<Rightarrow> v),
             pp_resource = pq_resource pq, pp_accepted = acc, pp_payload = payload\<rparr>)
          (objSet ''PAYMENT-SIGNATURE'' (e_encodePayload e
            \<lparr>pp_x402Version = (case pq_x402Version pq of None \<Rightarrow> 2 | Some v \<Rightarrow> v),
             pp_resource = pq_resource pq, pp_accepted = acc, pp_payload = payload\<rparr>)
            (op_headers opts))),
      rq_body = op_body opts\<rparr>"
  have "\<exists>rest. trace (snd (retryWithPayment e url opts pq acc payload tid w))
                 = trace w @ HttpFetch ?req # rest \<and> \<not> list_ex isFetch rest"
  proof (cases "e_fetch e ?req")
    case (Inl err)
    then show ?thesis
      by (simp add: retryWithPayment_def Let_def logEvent_def)
  next
    case (Inr resp)
    let ?u = "if responseOk resp
              then \<lparr>up_status = Some Settled, up_txHash = receiptHash e resp, up_reason = None\<rparr>
              else \<lparr>up_status = Some Failed, up_txHash = None, up_reason = None\<rparr>"
    obtain r2 w2 where u: "updateTransaction tid ?u (logEvent (HttpFetch ?req) w) = (r2, w2)"
      by (cases "updateTransaction tid ?u (logEvent (HttpFetch ?req) w)") blast
    have w': "snd (retryWithPayment e url opts pq acc payload tid w) = w2"
      using Inr u
      by (auto simp: retryWithPayment_def Let_def split: sum.splits if_splits)
    from updateTransaction_world [OF u] show ?thesis
      unfolding w' by (auto simp: logEvent_def isFetch_def)
  qed
  then show ?thesis
    by (auto intro!: exI [of _ ?req])
qed

lemma demo_prepare_run:
  "demoPreparedWorld =
     \<lparr>state = demoState DEFAULT_RULES
         [pendingParams demoRequirements ''api.example'' ''0.1'' ''x402 payment''
            \<lparr>tx_id := ''t2'', tx_timestamp := ''2026-01-02T10:00:00.000Z''\<rparr>],
      statePath = ''.clawlet/state.json'',
      paymentSessions = [(''s1'', demoSession)],
      trace =
        [HttpFetch \<lparr>rq_url = ''https://api.example/x'', rq_method = ''GET'', rq_headers = [],
                    rq_body = None\<rparr>,
         WriteFileSync ''.clawlet/state.json''
           (demoState DEFAULT_RULES
              [pendingParams demoRequirements ''api.example'' ''0.1'' ''x402 payment''
                 \<lparr>tx_id := ''t2'', tx_timestamp := ''2026-01-02T10:00:00.000Z''\<rparr>])]\<rparr>"
  by (simp add: demo_defs store_defs rules_defs broker_defs lib_defs)

lemma demo_prepared_session:
  "map_of (paymentSessions demoPreparedWorld) ''s1'' = Some demoSession"
  by (simp add: demo_prepare_run)

lemma demo_prepared_tx:
  "activeTx (state demoPreparedWorld) ''t2''
     = Some (pendingParams demoRequirements ''api.example'' ''0.1'' ''x402 payment''
               \<lparr>tx_id := ''t2'', tx_timestamp := ''2026-01-02T10:00:00.000Z''\<rparr>)"
  by (simp add: demo_prepare_run) (simp add: activeTx_def getActiveEntry_def demoState_def demoEntry_def)

lemma demo_complete_succeeds:
  "fst (x402Complete demoEnv ''s1'' ''0xsig'' demoPreparedWorld)
     = Inr \<lparr>fr_status = 200, fr_headers = [], fr_body = ''ok'',
            fr_payment = Some \<lparr>pi_txHash = None, pi_amount = ''0.1'', pi_to = ''0xP''\<rparr>\<rparr>"
  by (simp add: demo_prepare_run) (simp add: demo_defs store_defs broker_defs lib_defs)



section \<open>Expired and absent sessions\<close>

lemma find_mapFirst_same:
  "(\<And>x. Q (f x) = Q x) \<Longrightarrow> find Q (mapFirst Q f xs) = map_option f (find Q xs)"
  by (induction xs) auto

lemma find_mapFirst_other:
  "(\<And>x. P x \<Longrightarrow> \<not> Q x \<and> \<not> Q (f x)) \<Longrightarrow> find Q (mapFirst P f xs) = find Q xs"
  by (induction xs) auto

lemma activeTx_updateTransaction:
  "activeTx (state (snd (updateTransaction j u w))) i =
     (if i = j then map_option (applyUpdate u) (activeTx (state w) i) else activeTx (state w) i)"
proof (cases "activeTx (state w) j")
  case None
  from updateTransaction_missing [OF None, of u] obtain err where
    "updateTransaction j u w = (Inl err, w)" by blast
  then show ?thesis using None by simp
next
  case (Some tx)
  from activeTx_Some [OF Some] obtain entry where
    e: "getActiveEntry (state w) = Some entry"
    and t: "find (\<lambda>t. tx_id t = j) (we_transactions entry) = Some tx"
    by blast
  let ?f = "\<lambda>en. en\<lparr>we_transactions :=
                 mapFirst (\<lambda>t. tx_id t = j) (applyUpdate u) (we_transactions en)\<rparr>"
  have e': "getActiveEntry (modifyActiveEntry ?f (state w)) = Some (?f entry)"
    by (rule getActiveEntry_modify [OF e]) simp
  have st: "state (snd (updateTransaction j u w)) = modifyActiveEntry ?f (state w)"
    using e t by (simp add: updateTransaction_def requireActiveEntry_def persist_def Let_def)
  show ?thesis
  proof (cases "i = j")
    case True
    have "find (\<lambda>t. tx_id t = j) (mapFirst (\<lambda>t. tx_id t = j) (applyUpdate u) (we_transactions entry))
        = map_option (applyUpdate u) (find (\<lambda>t. tx_id t = j) (we_transactions entry))"
      by (rule find_mapFirst_same) simp
    then show ?thesis
      using True e e' st by (simp add: activeTx_def)
  next
    case False
    have "find (\<lambda>t. tx_id t = i) (mapFirst (\<lambda>t. tx_id t = j) (applyUpdate u) (we_transactions entry))
        = find (\<lambda>t. tx_id t = i) (we_transactions entry)"
      by (rule find_mapFirst_other) (use False in simp)
    then show ?thesis
      using False e e' st by (simp add: activeTx_def)
  qed
qed

lemma applyUpdate_cleanup [simp]:
  "tx_status (applyUpdate cleanupUpdate tx) = Failed"
  "tx_reason (applyUpdate cleanupUpdate tx) = ''Payment session expired''"
  "applyUpdate cleanupUpdate tx = tx\<lparr>tx_status := Failed, tx_reason := ''Payment session expired''\<rparr>"
  by (simp_all add: applyUpdate_def cleanupUpdate_def)

lemma markedExpired_updateTransaction:
  "markedExpired (state w) i \<Longrightarrow>
     markedExpired (state (snd (updateTransaction j cleanupUpdate w))) i"
  by (auto simp: markedExpired_def activeTx_updateTransaction split: option.splits)

lemma updateTransaction_marks:
  assumes "updateTransaction j cleanupUpdate w = (Inr tx', w1)"
  shows "markedExpired (state w1) j"
proof (cases "activeTx (state w) j")
  case None
  from updateTransaction_missing [OF None, of cleanupUpdate] show ?thesis
    using assms by auto
next
  case (Some tx)
  have "activeTx (state (snd (updateTransaction j cleanupUpdate w))) j
      = Some (applyUpdate cleanupUpdate tx)"
    using Some by (simp only: activeTx_updateTransaction) simp
  then show ?thesis
    using assms by (simp add: markedExpired_def)
qed

lemma cleanupLoop_keeps_marked:
  "markedExpired (state w) t \<Longrightarrow> markedExpired (state (snd (cleanupLoop now ss w))) t"
proof (induction ss arbitrary: w)
  case Nil
  then show ?case by simp
next
  case (Cons p ss)
  obtain i session where p: "p = (i, session)" by (cases p)
  show ?case
  proof (cases "now > ps_expiresAt session")
    case False
    then show ?thesis using Cons p by simp
  next
    case True
    obtain r w1 where u: "updateTransaction (ps_txRecordId session) cleanupUpdate w = (r, w1)"
      by (cases "updateTransaction (ps_txRecordId session) cleanupUpdate w") blast
    have m1: "markedExpired (state w1) t"
      using markedExpired_updateTransaction [OF Cons.prems, of "ps_txRecordId session"] u by simp
    show ?thesis
    proof (cases r)
      case (Inl err)
      then show ?thesis using True p u m1 by simp
    next
      case (Inr tx)
      have "markedExpired (state (deleteSession i w1)) t"
        using m1 by simp
      from Cons.IH [OF this] show ?thesis
        using True p u Inr by simp
    qed
  qed
qed

text \<open>
  A sweep that runs to its end has removed every expired session and has marked the
  ledger entry of each as failed with the reason "Payment session expired".
\<close>

lemma cleanupLoop_marks:
  "cleanupLoop now ss w = (Inr (), w') \<Longrightarrow> (i, s) \<in> set ss \<Longrightarrow> now > ps_expiresAt s \<Longrightarrow>
     map_of (paymentSessions w') i = None \<and> markedExpired (state w') (ps_txRecordId s)"
proof (induction ss arbitrary: w)
  case Nil
  then show ?case by simp
next
  case (Cons p ss)
  obtain i0 s0 where p: "p = (i0, s0)" by (cases p)
  show ?case
  proof (cases "now > ps_expiresAt s0")
    case False
    with Cons.prems p have "(i, s) \<in> set ss" and "cleanupLoop now ss w = (Inr (), w')"
      by auto
    from Cons.IH [OF this(2) this(1) Cons.prems(3)] show ?thesis .
  next
    case True
    obtain r w1 where u: "updateTransaction (ps_txRecordId s0) cleanupUpdate w = (r, w1)"
      by (cases "updateTransaction (ps_txRecordId s0) cleanupUpdate w") blast
    show ?thesis
    proof (cases r)
      case (Inl err)
      then show ?thesis using Cons.prems(1) True p u by simp
    next
      case (Inr tx)
      let ?w2 = "deleteSession i0 w1"
      have loop: "cleanupLoop now ss ?w2 = (Inr (), w')"
        using Cons.prems(1) True p u Inr by simp
      show ?thesis
      proof (cases "(i, s) = (i0, s0)")
        case True
        have "map_of (paymentSessions ?w2) i = None"
          using True by simp
        from cleanupLoop_absent_stays [OF this, of now ss]
        have a: "map_of (paymentSessions w') i = None"
          using loop by simp
        have "markedExpired (state ?w2) (ps_txRecordId s)"
          using updateTransaction_marks [OF u [unfolded Inr]] True by simp
        from cleanupLoop_keeps_marked [OF this, of now ss]
        have "markedExpired (state w') (ps_txRecordId s)"
          using loop by simp
        with a show ?thesis by simp
      next
        case False
        with Cons.prems(2) p have "(i, s) \<in> set ss" by auto
        from Cons.IH [OF loop this Cons.prems(3)] show ?thesis .
      qed
    qed
  qed
qed

text \<open>
  C8, as the code has it. On an absent session \<open>x402Complete\<close> fails with
  session-not-found and changes nothing, the ledger included. On a session that is
  present and expired it removes the session, issues no request and fails; when the
  session's ledger entry is on the active wallet, the error is the session-expired one and
  that entry is marked failed with the reason "Payment session expired". A sweep that runs
  to its end removes every expired session and marks the entry of each the same way, and a
  complete on such a session then fails with session-not-found.
\<close>

theorem x402Complete_absent_or_expired:
  "(map_of (paymentSessions w) sid = None \<longrightarrow>
      x402Complete e sid sig w = (Inl SessionNotFound, w))
   \<and> (\<forall>session.
        map_of (paymentSessions w) sid = Some session \<longrightarrow>
        e_now e > ps_expiresAt session \<longrightarrow>
        isl (fst (x402Complete e sid sig w))
        \<and> map_of (paymentSessions (snd (x402Complete e sid sig w))) sid = None
        \<and> \<not> list_ex isFetch (newEvents w (snd (x402Complete e sid sig w)))
        \<and> (\<forall>tx. activeTx (state w) (ps_txRecordId session) = Some tx \<longrightarrow>
              (\<exists>w'. x402Complete e sid sig w = (Inl SessionExpired, w')
                 \<and> activeTx (state w') (ps_txRecordId session)
                     = Some (tx\<lparr>tx_status := Failed, tx_reason := ''Payment session expired''\<rparr>))))
   \<and> (\<forall>w' i s.
        cleanupSessions e w = (Inr (), w') \<longrightarrow>
        (i, s) \<in> set (paymentSessions w) \<longrightarrow>
        e_now e > ps_expiresAt s \<longrightarrow>
        map_of (paymentSessions w') i = None \<and> markedExpired (state w') (ps_txRecordId s)
        \<and> x402Complete e2 i sig w' = (Inl SessionNotFound, w'))"
proof (intro conjI allI impI)
  assume "map_of (paymentSessions w) sid = None"
  then show "x402Complete e sid sig w = (Inl SessionNotFound, w)"
    by (rule x402Complete_absent)
next
  fix session
  assume s: "map_of (paymentSessions w) sid = Some session"
    and ex: "e_now e > ps_expiresAt session"
  obtain r w2 where
    u: "updateTransaction (ps_txRecordId session) cleanupUpdate (deleteSession sid w) = (r, w2)"
    by (cases "updateTransaction (ps_txRecordId session) cleanupUpdate (deleteSession sid w)") blast
  have run: "x402Complete e sid sig w =
      (case r of Inl err \<Rightarrow> (Inl err, w2) | Inr txr \<Rightarrow> (Inl SessionExpired, w2))"
    using s ex u by (simp add: x402Complete_def Let_def split: sum.splits)
  show "isl (fst (x402Complete e sid sig w))"
    unfolding run by (simp split: sum.splits)
  show "map_of (paymentSessions (snd (x402Complete e sid sig w))) sid = None"
    by (rule x402Complete_removes)
  have "trace w2 = trace w @ [SessionDelete sid]
      \<or> (\<exists>st'. trace w2 = trace w @ [SessionDelete sid, WriteFileSync (statePath w) st'])"
    using updateTransaction_world [OF u] by auto
  then have "\<not> list_ex isFetch (newEvents w w2)"
    by (auto simp: isFetch_def)
  moreover have "snd (x402Complete e sid sig w) = w2"
    unfolding run by (simp split: sum.splits)
  ultimately show "\<not> list_ex isFetch (newEvents w (snd (x402Complete e sid sig w)))"
    by simp
next
  fix session tx
  assume s: "map_of (paymentSessions w) sid = Some session"
    and ex: "e_now e > ps_expiresAt session"
    and tx: "activeTx (state w) (ps_txRecordId session) = Some tx"
  have "activeTx (state (deleteSession sid w)) (ps_txRecordId session) = Some tx"
    using tx by simp
  from updateTransaction_found [OF this, of cleanupUpdate] obtain w2 where
    u: "updateTransaction (ps_txRecordId session) cleanupUpdate (deleteSession sid w)
          = (Inr (applyUpdate cleanupUpdate tx), w2)"
    and a: "activeTx (state w2) (ps_txRecordId session) = Some (applyUpdate cleanupUpdate tx)"
    by blast
  have "x402Complete e sid sig w = (Inl SessionExpired, w2)"
    using s ex u by (simp add: x402Complete_def Let_def)
  then show "\<exists>w'. x402Complete e sid sig w = (Inl SessionExpired, w')
      \<and> activeTx (state w') (ps_txRecordId session)
          = Some (tx\<lparr>tx_status := Failed, tx_reason := ''Payment session expired''\<rparr>)"
    using a by simp
next
  fix w' i s
  assume "cleanupSessions e w = (Inr (), w')" and "(i, s) \<in> set (paymentSessions w)"
    and "e_now e > ps_expiresAt s"
  then have swept: "map_of (paymentSessions w') i = None \<and> markedExpired (state w') (ps_txRecordId s)"
    using cleanupLoop_marks [of "e_now e" "paymentSessions w" w w' i s]
    by (simp add: cleanupSessions_def)
  then show "map_of (paymentSessions w') i = None"
    and "markedExpired (state w') (ps_txRecordId s)"
    by simp_all
  from swept show "x402Complete e2 i sig w' = (Inl SessionNotFound, w')"
    by (simp add: x402Complete_absent)
qed

theorem x402Complete_absent_or_expired_witness:
  "x402Complete demoEnv ''s9'' ''0xsig'' demoPreparedWorld = (Inl SessionNotFound, demoPreparedWorld)
   \<and> (\<exists>w'. x402Complete (demoEnv\<lparr>e_now := 1601\<rparr>) ''s1'' ''0xsig'' demoPreparedWorld
              = (Inl SessionExpired, w')
         \<and> map_of (paymentSessions w') ''s1'' = None
         \<and> markedExpired (state w') ''t2'')"
proof -
  have absent: "map_of (paymentSessions demoPreparedWorld) ''s9'' = None"
    by (simp add: demo_prepare_run)
  have expired: "e_now (demoEnv\<lparr>e_now := 1601\<rparr>) > ps_expiresAt demoSession"
    by (simp add: demoSession_def)
  have tx: "activeTx (state demoPreparedWorld) (ps_txRecordId demoSession)
      = Some (pendingParams demoRequirements ''api.example'' ''0.1'' ''x402 payment''
               \<lparr>tx_id := ''t2'', tx_timestamp := ''2026-01-02T10:00:00.000Z''\<rparr>)"
    using demo_prepared_tx by (simp add: demoSession_def)
  have a: "x402Complete demoEnv ''s9'' ''0xsig'' demoPreparedWorld
      = (Inl SessionNotFound, demoPreparedWorld)"
    using x402Complete_absent_or_expired [of demoPreparedWorld "''s9''" demoEnv "''0xsig''"] absent
    by blast
  note expired_case = x402Complete_absent_or_expired [of demoPreparedWorld "''s1''"
      "demoEnv\<lparr>e_now := 1601\<rparr>" "''0xsig''"]
  have gone: "map_of (paymentSessions
      (snd (x402Complete (demoEnv\<lparr>e_now := 1601\<rparr>) ''s1'' ''0xsig'' demoPreparedWorld))) ''s1'' = None"
    using expired_case demo_prepared_session expired by blast
  have "\<exists>w'. x402Complete (demoEnv\<lparr>e_now := 1601\<rparr>) ''s1'' ''0xsig'' demoPreparedWorld
        = (Inl SessionExpired, w')
      \<and> activeTx (state w') (ps_txRecordId demoSession)
          = Some (pendingParams demoRequirements ''api.example'' ''0.1'' ''x402 payment''
               \<lparr>tx_id := ''t2'', tx_timestamp := ''2026-01-02T10:00:00.000Z'',
                 tx_status := Failed, tx_reason := ''Payment session expired''\<rparr>)"
    using expired_case demo_prepared_session expired tx by blast
  then have "\<exists>w'. x402Complete (demoEnv\<lparr>e_now := 1601\<rparr>) ''s1'' ''0xsig'' demoPreparedWorld
        = (Inl SessionExpired, w')
      \<and> map_of (paymentSessions w') ''s1'' = None
      \<and> markedExpired (state w') ''t2''"
    using gone by (auto simp: markedExpired_def demoSession_def)
  with a show ?thesis by simp
qed

text \<open>
  C8 as stated fails: on the expired session of the scenario \<open>x402Complete\<close> fails with
  the session-expired error, not with session-not-found.
\<close>

theorem x402Complete_expired_counterexample:
  "map_of (paymentSessions demoPreparedWorld) ''s1'' = Some demoSession
   \<and> ps_expiresAt demoSession < e_now (demoEnv\<lparr>e_now := 1601\<rparr>)
   \<and> fst (x402Complete (demoEnv\<lparr>e_now := 1601\<rparr>) ''s1'' ''0xsig'' demoPreparedWorld)
       = Inl SessionExpired
   \<and> fst (x402Complete (demoEnv\<lparr>e_now := 1601\<rparr>) ''s1'' ''0xsig'' demoPreparedWorld)
       \<noteq> Inl SessionNotFound"
  by (simp add: demo_prepare_run) (simp add: demo_defs store_defs broker_defs Let_def)
section \<open>Persistence: one write of the state file, in place\<close>

lemma writesInPlace_iff:
  "writesInPlace w w' \<longleftrightarrow>
     statePath w' = statePath w
     \<and> (\<exists>evs. trace w' = trace w @ evs \<and> list_all (inPlaceWrite (statePath w)) evs)"
proof
  assume a: "writesInPlace w w'"
  then have "trace w' = trace w @ drop (length (trace w)) (trace w')"
    by (metis append_take_drop_id writesInPlace_def)
  with a show "statePath w' = statePath w
      \<and> (\<exists>evs. trace w' = trace w @ evs \<and> list_all (inPlaceWrite (statePath w)) evs)"
    by (auto simp: writesInPlace_def newEvents_def)
next
  assume "statePath w' = statePath w
      \<and> (\<exists>evs. trace w' = trace w @ evs \<and> list_all (inPlaceWrite (statePath w)) evs)"
  then show "writesInPlace w w'"
    by (auto simp: writesInPlace_def newEvents_def)
qed

lemma writesInPlace_refl [simp]: "writesInPlace w w"
  by (simp add: writesInPlace_iff)

lemma writesInPlace_trans:
  "writesInPlace w w1 \<Longrightarrow> writesInPlace w1 w2 \<Longrightarrow> writesInPlace w w2"
  by (auto simp: writesInPlace_iff)

lemma writesInPlace_logFetch [simp]: "writesInPlace w (logEvent (HttpFetch req) w)"
  by (simp add: writesInPlace_iff logEvent_def inPlaceWrite_def)

lemma writesInPlace_logSign [simp]: "writesInPlace w (logEvent (SignTypedDataCall td) w)"
  by (simp add: writesInPlace_iff logEvent_def inPlaceWrite_def)

lemma writesInPlace_write [simp]:
  "writesInPlace w (w\<lparr>state := st', trace := trace w @ [WriteFileSync (statePath w) st']\<rparr>)"
  by (simp add: writesInPlace_iff inPlaceWrite_def)

lemma writesInPlace_sessions [simp]:
  "writesInPlace w (w'\<lparr>paymentSessions := ss\<rparr>) = writesInPlace w w'"
  by (simp add: writesInPlace_def newEvents_def)

lemma writesInPlace_sessions_left [simp]:
  "writesInPlace (w\<lparr>paymentSessions := ss\<rparr>) w' = writesInPlace w w'"
  by (simp add: writesInPlace_def newEvents_def)

lemma writesInPlace_deleteSession [simp]: "writesInPlace w (deleteSession i w)"
  by (simp add: writesInPlace_iff inPlaceWrite_def)

lemma negotiate_inPlace:
  "negotiate e url opts w = (r, w1) \<Longrightarrow> writesInPlace w w1"
  using negotiate_world [of e url opts w] by simp

lemma signPayment_inPlace:
  "signPayment e adapter requirements w = (r, w2) \<Longrightarrow> writesInPlace w w2"
  by (auto dest!: signPayment_world)

lemma addTransaction_inPlace:
  "addTransaction rid ts params w = (r, w3) \<Longrightarrow> writesInPlace w w3"
  by (auto simp: addTransaction_def persist_def Let_def split: sum.splits)

lemma updateTransaction_inPlace:
  "updateTransaction i u w = (r, w') \<Longrightarrow> writesInPlace w w'"
  by (auto dest!: updateTransaction_world)

lemma retryWithPayment_inPlace:
  "retryWithPayment e url opts pq acc payload tid w = (r, w') \<Longrightarrow> writesInPlace w w'"
  by (auto simp: writesInPlace_iff logEvent_def inPlaceWrite_def dest!: retryWithPayment_world)

lemma retryWithPayment_inPlace_snd:
  "writesInPlace w (snd (retryWithPayment e url opts pq acc payload tid w))"
  by (cases "retryWithPayment e url opts pq acc payload tid w") (simp add: retryWithPayment_inPlace)

lemma x402Fetch_inPlace: "writesInPlace w (snd (x402Fetch e url opts w))"
proof -
  have step: "\<And>r1 w1 r2 w2 r3 w3 adapter accepted params pq payload tid.
      negotiate e url opts w = (r1, w1) \<Longrightarrow>
      signPayment e adapter accepted w1 = (r2, w2) \<Longrightarrow>
      addTransaction (e_randomTxId e) (e_isoNow e) params w2 = (r3, w3) \<Longrightarrow>
      writesInPlace w w1 \<and> writesInPlace w w2 \<and> writesInPlace w w3
      \<and> writesInPlace w (snd (retryWithPayment e url opts pq accepted payload tid w3))"
    by (meson negotiate_inPlace signPayment_inPlace addTransaction_inPlace
        retryWithPayment_inPlace_snd writesInPlace_trans)
  obtain r1 w1 where n: "negotiate e url opts w = (r1, w1)"
    by (cases "negotiate e url opts w") blast
  have w1: "writesInPlace w w1"
    by (rule negotiate_inPlace [OF n])
  show ?thesis
  proof (cases "\<exists>accepted pq service. r1 = Inr (Payment accepted pq service)
      \<and> \<not> isl (getWallet (state w)) \<and> \<not> isl (getAdapter e (state w))
      \<and> \<not> wi_frozen (projr (getWallet (state w)))")
    case False
    then have "snd (x402Fetch e url opts w) = w \<or> snd (x402Fetch e url opts w) = w1"
      using n by (auto simp: x402Fetch_def split: sum.splits Negotiation.splits)
    then show ?thesis using w1 by auto
  next
    case True
    then obtain accepted pq service wallet adapter where
      r1: "r1 = Inr (Payment accepted pq service)"
      and wal: "getWallet (state w) = Inr wallet" "\<not> wi_frozen wallet"
      and ad: "getAdapter e (state w) = Inr adapter"
      by (cases "getWallet (state w)"; cases "getAdapter e (state w)") auto
    obtain r2 w2 where s: "signPayment e adapter accepted w1 = (r2, w2)"
      by (cases "signPayment e adapter accepted w1") blast
    show ?thesis
    proof (cases "\<exists>payload v. r2 = Inr payload \<and> BigInt (pr_amount accepted) = Inr v")
      case False
      then have "snd (x402Fetch e url opts w) = w2"
        using n r1 wal ad s by (auto simp: x402Fetch_def split: sum.splits)
      then show ?thesis
        using w1 signPayment_inPlace [OF s] writesInPlace_trans by blast
    next
      case True
      then obtain payload v where r2: "r2 = Inr payload" and v: "BigInt (pr_amount accepted) = Inr v"
        by blast
      let ?params = "pendingParams accepted service (formatUnits v 6) (optReason opts)"
      obtain r3 w3 where a: "addTransaction (e_randomTxId e) (e_isoNow e) ?params w2 = (r3, w3)"
        by (cases "addTransaction (e_randomTxId e) (e_isoNow e) ?params w2") blast
      from step [OF n s a] have
        all: "writesInPlace w w3"
          "\<And>tid. writesInPlace w (snd (retryWithPayment e url opts pq accepted payload tid w3))"
        by blast+
      show ?thesis
        using n r1 wal ad s r2 v a all
        by (cases r3) (simp_all add: x402Fetch_def)
    qed
  qed
qed

lemma x402Prepare_inPlace: "writesInPlace w (snd (x402Prepare e url opts w))"
  by (auto simp: x402Prepare_def Let_def
      split: sum.splits if_splits option.splits Negotiation.splits prod.splits
      dest!: negotiate_inPlace addTransaction_inPlace
      intro: writesInPlace_trans)

lemma x402Complete_inPlace: "writesInPlace w (snd (x402Complete e sid sig w))"
proof (cases "map_of (paymentSessions w) sid")
  case None
  then show ?thesis by (simp add: x402Complete_def)
next
  case (Some session)
  have "writesInPlace (deleteSession sid w) (snd (x402Complete e sid sig w))"
    using Some
    by (auto simp: x402Complete_def Let_def retryWithPayment_inPlace_snd
        split: prod.splits sum.splits
        dest!: updateTransaction_inPlace)
  from writesInPlace_trans [OF writesInPlace_deleteSession this] show ?thesis .
qed

lemma cleanupLoop_inPlace: "writesInPlace w (snd (cleanupLoop now ss w))"
proof (induction ss arbitrary: w)
  case Nil
  then show ?case by simp
next
  case (Cons p ss)
  obtain i session where p: "p = (i, session)" by (cases p)
  show ?case
  proof (cases "now > ps_expiresAt session")
    case False
    then show ?thesis using Cons p by simp
  next
    case True
    obtain r w1 where u: "updateTransaction (ps_txRecordId session) cleanupUpdate w = (r, w1)"
      by (cases "updateTransaction (ps_txRecordId session) cleanupUpdate w") blast
    have w1: "writesInPlace w w1"
      by (rule updateTransaction_inPlace [OF u])
    show ?thesis
    proof (cases r)
      case (Inl err)
      then show ?thesis using True p u w1 by simp
    next
      case (Inr tx)
      have "writesInPlace w (deleteSession i w1)"
        using w1 writesInPlace_deleteSession by (rule writesInPlace_trans)
      from writesInPlace_trans [OF this Cons.IH] show ?thesis
        using True p u Inr by simp
    qed
  qed
qed

lemma runOp_inPlace: "writesInPlace w (runOp op w)"
  by (cases op)
    (simp_all add: x402Fetch_inPlace x402Prepare_inPlace x402Complete_inPlace
      cleanupSessions_def cleanupLoop_inPlace)

lemma runOps_inPlace: "writesInPlace w (runOps ops w)"
proof (induction ops arbitrary: w)
  case Nil
  then show ?case by simp
next
  case (Cons op ops)
  from writesInPlace_trans [OF runOp_inPlace Cons.IH] show ?case by simp
qed

text \<open>
  C4, as the code has it. \<open>persist\<close> is one \<open>writeFileSync\<close> of the whole in-memory
  document onto the state file itself; no temporary file is written and nothing is
  renamed. The same holds for every file effect of freezing and of any sequence of broker
  operations: each is a write of the state file in place.
\<close>

theorem persist_writes_in_place:
  "newEvents w (persist w) = [WriteFileSync (statePath w) (state w)]
   \<and> writesInPlace w (snd (setFrozen b w))
   \<and> writesInPlace w (runOps ops w)"
proof -
  have "writesInPlace w (snd (setFrozen b w))"
    by (auto simp: persist_def setFrozen_def split: sum.splits)
  then show ?thesis
    by (simp add: persist_def runOps_inPlace)
qed

theorem persist_writes_in_place_witness:
  "newEvents (demoWorld DEFAULT_RULES []) (persist (demoWorld DEFAULT_RULES []))
     = [WriteFileSync ''.clawlet/state.json'' (demoState DEFAULT_RULES [])]
   \<and> writesInPlace (demoWorld DEFAULT_RULES [])
       (snd (x402Fetch demoEnv ''https://api.example/x'' demoOptions (demoWorld DEFAULT_RULES [])))"
  using persist_writes_in_place [of "demoWorld DEFAULT_RULES []" True
      "[Fetch demoEnv ''https://api.example/x'' demoOptions]"]
  by (simp add: demoWorld_def)

text \<open>
  C4 as stated fails: the effects of \<open>persist\<close> are not a write to a temporary file
  followed by a rename onto the state file, whatever the temporary file is called.
\<close>

theorem persist_not_atomic_counterexample:
  "newEvents (demoWorld DEFAULT_RULES []) (persist (demoWorld DEFAULT_RULES []))
     = [WriteFileSync ''.clawlet/state.json'' (state (demoWorld DEFAULT_RULES []))]
   \<and> (\<forall>tmp. newEvents (demoWorld DEFAULT_RULES []) (persist (demoWorld DEFAULT_RULES []))
         \<noteq> atomicPersistSpec tmp (demoWorld DEFAULT_RULES []))"
  by (simp add: persist_def atomicPersistSpec_def demoWorld_def)

section \<open>Receipt amount formatting\<close>

text \<open>
  The amount on the receipt and on the ledger entry is
  \<open>formatUnits(BigInt(accepted.amount), 6)\<close>.
\<close>

lemma retryWithPayment_amount:
  assumes "retryWithPayment e url opts pq acc payload tid w = (Inr res, w')"
  shows "\<exists>a p. BigInt (pr_amount acc) = Inr a \<and> fr_payment res = Some p
           \<and> pi_amount p = formatUnits a 6"
  using assms
  by (auto simp: retryWithPayment_def Let_def split: sum.splits prod.splits)

lemma x402Fetch_amount:
  assumes "x402Fetch e url opts w = (Inr res, w')" and "fr_payment res = Some p"
  shows "\<exists>acc pq service w1 a.
           negotiate e url opts w = (Inr (Payment acc pq service), w1)
           \<and> BigInt (pr_amount acc) = Inr a \<and> pi_amount p = formatUnits a 6"
proof -
  obtain r1 w1 where n: "negotiate e url opts w = (r1, w1)"
    by (cases "negotiate e url opts w") blast
  show ?thesis
  proof (cases r1)
    case (Inl err)
    then show ?thesis
      using assms(1) n by (auto simp: x402Fetch_def split: sum.splits if_splits)
  next
    case (Inr neg)
    show ?thesis
    proof (cases neg)
      case (Passthrough resp)
      then show ?thesis
        using assms n Inr by (auto simp: x402Fetch_def split: sum.splits if_splits)
    next
      case (Payment acc pq service)
      from assms(1) n Inr Payment obtain payload tid w3 where
        "retryWithPayment e url opts pq acc payload tid w3 = (Inr res, w')"
        by (auto simp: x402Fetch_def split: sum.splits if_splits prod.splits)
      from retryWithPayment_amount [OF this] obtain a p' where
        "BigInt (pr_amount acc) = Inr a" "fr_payment res = Some p'" "pi_amount p' = formatUnits a 6"
        by blast
      then show ?thesis
        using assms(2) n Inr Payment by auto
    qed
  qed
qed

text \<open>
  C9 as stated fails: the atomic amount 0 is rendered \<open>0\<close>, without a fractional digit,
  where the claim says \<open>0.0\<close>; so is the amount on the receipt of a payment of 0 atomic
  units.
\<close>

theorem formatUnits_zero_counterexample:
  "formatUnits 0 6 = ''0'' \<and> formatUnits 0 6 \<noteq> ''0.0''
   \<and> (case fst (retryWithPayment (demoEnv\<lparr>e_fetch := demoOkServer\<rparr>) ''https://api.example/x''
                   demoOptions demoPaymentRequired (demoRequirements\<lparr>pr_amount := ''0''\<rparr>)
                   demoPayload ''t1'' (demoWorld DEFAULT_RULES [demoPendingTx])) of
         Inl err \<Rightarrow> None
       | Inr res \<Rightarrow> map_option pi_amount (fr_payment res)) = Some ''0''"
  by (simp add: demo_defs store_defs broker_defs lib_defs)
subsection \<open>The rendering denotes the amount exactly\<close>

lemma digit_less_10:
  "d < 10 \<Longrightarrow> d = 0 \<or> d = 1 \<or> d = 2 \<or> d = 3 \<or> d = 4 \<or> d = 5 \<or> d = 6 \<or> d = 7 \<or> d = 8 \<or> d = (9::nat)"
  by arith

lemma digitChar_props:
  assumes "d < 10"
  shows "isDigit (digitChar d)" and "digitVal (digitChar d) = d"
  using digit_less_10 [OF assms]
  by (auto simp: digitChar_def isDigit_def digitVal_def)

lemma isDigit_zero [simp]: "isDigit (CHR ''0'')"
  by (simp add: isDigit_def)

lemma isDigit_not_punct: "isDigit c \<Longrightarrow> c \<noteq> CHR ''.'' \<and> c \<noteq> CHR ''-''"
  by (auto simp: isDigit_def)

lemma natToString_digits: "list_all isDigit (natToString n)"
proof (induction n rule: natToString.induct)
  case (1 n)
  show ?case
  proof (cases "n < 10")
    case True
    then show ?thesis
      by (subst natToString.simps) (simp add: digitChar_props)
  next
    case False
    then show ?thesis
      using 1 by (subst natToString.simps) (simp add: digitChar_props)
  qed
qed

lemma natToString_nonempty: "natToString n \<noteq> []"
  by (subst natToString.simps) simp

lemma natToString_zero: "natToString 0 = ''0''"
  by (subst natToString.simps) (simp add: digitChar_def)

lemma natToString_hd: "n \<noteq> 0 \<Longrightarrow> hd (natToString n) \<noteq> CHR ''0''"
proof (induction n rule: natToString.induct)
  case (1 n)
  show ?case
  proof (cases "n < 10")
    case True
    then have "natToString n = [digitChar n]"
      by (subst natToString.simps) simp
    then show ?thesis
      using digit_less_10 [OF True] "1.prems" by (auto simp: digitChar_def)
  next
    case False
    then have eq: "natToString n = natToString (n div 10) @ [digitChar (n mod 10)]"
      by (subst natToString.simps) simp
    have "n div 10 \<noteq> 0"
      using False by simp
    then have "hd (natToString (n div 10)) \<noteq> CHR ''0''"
      using "1.IH" False by simp
    then show ?thesis
      using eq natToString_nonempty [of "n div 10"] by simp
  qed
qed

lemma decToNat_Nil [simp]: "decToNat [] = 0"
  by (simp add: decToNat_def digitsToNat_def)

lemma decToNat_snoc: "decToNat (xs @ [c]) = decToNat xs * 10 + digitVal c"
  by (simp add: decToNat_def digitsToNat_def)

lemma decToNat_natToString: "decToNat (natToString n) = n"
proof (induction n rule: natToString.induct)
  case (1 n)
  show ?case
  proof (cases "n < 10")
    case True
    then show ?thesis
      using decToNat_snoc [of "[]" "digitChar n"]
      by (subst natToString.simps) (simp add: digitChar_props)
  next
    case False
    then show ?thesis
      using 1 by (subst natToString.simps) (simp add: decToNat_snoc digitChar_props)
  qed
qed

lemma decToNat_append:
  "decToNat (xs @ ys) = decToNat xs * 10 ^ length ys + decToNat ys"
proof (induction ys rule: rev_induct)
  case Nil
  then show ?case by simp
next
  case (snoc y ys)
  have "decToNat (xs @ ys @ [y]) = decToNat ((xs @ ys) @ [y])"
    by simp
  also have "\<dots> = decToNat (xs @ ys) * 10 + digitVal y"
    by (rule decToNat_snoc)
  finally show ?case
    using snoc by (simp add: decToNat_snoc algebra_simps)
qed

lemma decToNat_zeros [simp]: "decToNat (replicate k (CHR ''0'')) = 0"
proof (induction k)
  case 0
  then show ?case by simp
next
  case (Suc k)
  have "replicate (Suc k) (CHR ''0'') = replicate k (CHR ''0'') @ [CHR ''0'']"
    by (simp add: replicate_append_same)
  then show ?case
    using Suc by (simp only: decToNat_snoc) (simp add: digitVal_def)
qed

lemma takeWhile_eq_replicate:
  "takeWhile (\<lambda>c. c = z) xs = replicate (length (takeWhile (\<lambda>c. c = z) xs)) z"
  by (induction xs) auto

lemma trimTrailingZeros_decomp:
  "\<exists>k. s = trimTrailingZeros s @ replicate k (CHR ''0'')"
proof -
  let ?P = "\<lambda>c. c = CHR ''0''"
  have "rev s = takeWhile ?P (rev s) @ dropWhile ?P (rev s)"
    by simp
  then have "s = rev (dropWhile ?P (rev s)) @ rev (takeWhile ?P (rev s))"
    by (metis rev_append rev_rev_ident)
  moreover have "rev (takeWhile ?P (rev s)) = replicate (length (takeWhile ?P (rev s))) (CHR ''0'')"
    by (subst takeWhile_eq_replicate) simp
  ultimately show ?thesis
    unfolding trimTrailingZeros_def by metis
qed

lemma trimTrailingZeros_idem [simp]:
  "trimTrailingZeros (trimTrailingZeros s) = trimTrailingZeros s"
  by (simp add: trimTrailingZeros_def)

lemma trimTrailingZeros_digits:
  "list_all isDigit s \<Longrightarrow> list_all isDigit (trimTrailingZeros s)"
  by (auto simp: trimTrailingZeros_def list_all_iff dest: set_dropWhileD)

lemma trimTrailingZeros_zero [simp]: "trimTrailingZeros ''0'' = []"
  by (simp add: trimTrailingZeros_def)

lemma splitAtDot_digits:
  assumes "list_all isDigit i"
  shows "splitAtDot i = (i, None)" and "splitAtDot (i @ CHR ''.'' # f) = (i, Some f)"
proof -
  have nodot: "\<And>c. c \<in> set i \<Longrightarrow> c \<noteq> CHR ''.''"
    using assms isDigit_not_punct by (auto simp: list_all_iff)
  then have a: "takeWhile (\<lambda>c. c \<noteq> CHR ''.'') i = i" "dropWhile (\<lambda>c. c \<noteq> CHR ''.'') i = []"
    by (simp_all add: takeWhile_eq_all_conv)
  show "splitAtDot i = (i, None)"
    unfolding splitAtDot_def Let_def a by simp
  have "takeWhile (\<lambda>c. c \<noteq> CHR ''.'') (i @ CHR ''.'' # f) = i"
    "dropWhile (\<lambda>c. c \<noteq> CHR ''.'') (i @ CHR ''.'' # f) = CHR ''.'' # f"
    using nodot by (simp_all add: takeWhile_append2 dropWhile_append2)
  then show "splitAtDot (i @ CHR ''.'' # f) = (i, Some f)"
    by (simp add: splitAtDot_def)
qed

text \<open>
  \<open>parseUnits\<close> on a sign, a non-empty digit string and, after a point, a fraction
  without trailing zeros that fits the decimals.
\<close>

lemma parseUnits_canonical:
  assumes i: "list_all isDigit i" "i \<noteq> []"
    and f: "list_all isDigit f" "trimTrailingZeros f = f" "length f \<le> d"
  shows "parseUnits ((if neg then ''-'' else []) @ i @ (if f = [] then [] else CHR ''.'' # f)) d
      = Inr ((if neg then - 1 else 1)
             * int (decToNat i * 10 ^ d + decToNat f * 10 ^ (d - length f)))"
proof -
  let ?body = "i @ (if f = [] then [] else CHR ''.'' # f)"
  have hd_i: "hd i \<noteq> CHR ''-''"
    using i isDigit_not_punct [of "hd i"] by (cases i) auto
  have hd_body: "hd ?body = hd i" "?body \<noteq> []"
    using i(2) by auto
  have sp: "splitAtDot ?body = (i, if f = [] then None else Some f)"
    using splitAtDot_digits [OF i(1)] by auto
  show ?thesis
  proof (cases neg)
    case True
    then show ?thesis
      using sp i f by (cases "f = []") (simp_all add: parseUnits_def Let_def)
  next
    case False
    then show ?thesis
      using sp i f hd_i hd_body
      by (cases "f = []") (simp_all add: parseUnits_def Let_def)
  qed
qed

lemma trimTrailingZeros_value:
  assumes "length s = d"
  shows "decToNat s = decToNat (trimTrailingZeros s) * 10 ^ (d - length (trimTrailingZeros s))"
    and "length (trimTrailingZeros s) \<le> d"
proof -
  define t where "t = trimTrailingZeros s"
  obtain k where k: "s = t @ replicate k (CHR ''0'')"
    unfolding t_def using trimTrailingZeros_decomp [of s] by blast
  have len: "d = length t + k"
    using assms arg_cong [OF k, of length] by simp
  have "decToNat s = decToNat t * 10 ^ k"
    using decToNat_append [of t "replicate k (CHR ''0'')"] by (simp add: k [symmetric])
  then show "decToNat s = decToNat (trimTrailingZeros s) * 10 ^ (d - length (trimTrailingZeros s))"
    using len by (simp add: t_def)
  show "length (trimTrailingZeros s) \<le> d"
    using len by (simp add: t_def)
qed

lemma formatUnits_shape:
  "formatUnits v d =
     (if v < 0 then ''-'' else [])
     @ (if take (length (padStart0 d (natToString (nat \<bar>v\<bar>))) - d)
             (padStart0 d (natToString (nat \<bar>v\<bar>))) = []
        then ''0''
        else take (length (padStart0 d (natToString (nat \<bar>v\<bar>))) - d)
               (padStart0 d (natToString (nat \<bar>v\<bar>))))
     @ (if trimTrailingZeros (drop (length (padStart0 d (natToString (nat \<bar>v\<bar>))) - d)
              (padStart0 d (natToString (nat \<bar>v\<bar>)))) = []
        then []
        else CHR ''.'' # trimTrailingZeros
               (drop (length (padStart0 d (natToString (nat \<bar>v\<bar>))) - d)
                  (padStart0 d (natToString (nat \<bar>v\<bar>)))))"
  by (simp add: formatUnits_def Let_def)

text \<open>
  The parts of a formatted amount: a sign, a non-empty digit string and, after a point, a
  fraction without trailing zeros, which together hold the magnitude.
\<close>

lemma formatUnits_decomp:
  "\<exists>itext ftrim.
     formatUnits v d = (if v < 0 then ''-'' else []) @ itext
                         @ (if ftrim = [] then [] else CHR ''.'' # ftrim)
     \<and> list_all isDigit itext \<and> itext \<noteq> [] \<and> list_all isDigit ftrim
     \<and> trimTrailingZeros ftrim = ftrim \<and> length ftrim \<le> d
     \<and> decToNat itext * 10 ^ d + decToNat ftrim * 10 ^ (d - length ftrim) = nat \<bar>v\<bar>
     \<and> (itext = ''0'' \<or> hd itext \<noteq> CHR ''0'')"
proof -
  define n where "n = nat \<bar>v\<bar>"
  define disp where "disp = padStart0 d (natToString n)"
  define whole where "whole = take (length disp - d) disp"
  define padded where "padded = drop (length disp - d) disp"
  define ftrim where "ftrim = trimTrailingZeros padded"
  define itext where "itext = (if whole = [] then ''0'' else whole)"
  have disp_digits: "list_all isDigit disp"
    using natToString_digits [of n] by (auto simp: disp_def padStart0_def list_all_iff)
  have disp_len: "d \<le> length disp"
    by (simp add: disp_def padStart0_def)
  have disp_val: "decToNat disp = n"
    using decToNat_append [of "replicate (d - length (natToString n)) (CHR ''0'')" "natToString n"]
    by (simp add: disp_def padStart0_def decToNat_natToString)
  have padded_len: "length padded = d"
    using disp_len by (simp add: padded_def)
  have "disp = whole @ padded"
    by (simp add: whole_def padded_def)
  then have split: "decToNat disp = decToNat whole * 10 ^ d + decToNat padded"
    using decToNat_append [of whole padded] padded_len by simp
  have padded_val: "decToNat padded = decToNat ftrim * 10 ^ (d - length ftrim)"
    and f_len: "length ftrim \<le> d"
    using trimTrailingZeros_value [OF padded_len] by (simp_all add: ftrim_def)
  have i_digits: "list_all isDigit itext" "itext \<noteq> []"
    using disp_digits by (auto simp: itext_def whole_def list_all_iff dest: in_set_takeD)
  have i_val: "decToNat itext = decToNat whole"
    by (simp add: itext_def decToNat_def digitsToNat_def digitVal_def)
  have f_digits: "list_all isDigit ftrim"
    unfolding ftrim_def padded_def
    using disp_digits by (intro trimTrailingZeros_digits) (auto simp: list_all_iff dest: in_set_dropD)
  have f_trim: "trimTrailingZeros ftrim = ftrim"
    by (simp add: ftrim_def)
  have shape: "formatUnits v d
      = (if v < 0 then ''-'' else []) @ itext @ (if ftrim = [] then [] else CHR ''.'' # ftrim)"
    unfolding formatUnits_shape itext_def ftrim_def padded_def whole_def disp_def n_def ..
  have total: "decToNat itext * 10 ^ d + decToNat ftrim * 10 ^ (d - length ftrim) = nat \<bar>v\<bar>"
    using split padded_val i_val disp_val by (simp add: n_def)
  have lead: "itext = ''0'' \<or> hd itext \<noteq> CHR ''0''"
  proof (cases "whole = []")
    case True
    then show ?thesis by (simp add: itext_def)
  next
    case False
    then have "d < length disp"
      by (simp add: whole_def)
    then have long: "d < length (natToString n)"
      by (simp add: disp_def padStart0_def split: if_splits)
    then have disp_eq: "disp = natToString n"
      by (simp add: disp_def padStart0_def)
    have whole_eq: "whole = take (length (natToString n) - d) (natToString n)"
      by (simp add: whole_def disp_eq)
    show ?thesis
    proof (cases "n = 0")
      case True
      then have "whole = ''0''"
        using long whole_eq by (simp add: natToString_zero)
      then show ?thesis by (simp add: itext_def)
    next
      case nz: False
      have "hd whole = hd (natToString n)"
        using long whole_eq by (simp add: hd_take)
      then show ?thesis
        using False natToString_hd [OF nz] by (simp add: itext_def)
    qed
  qed
  from shape i_digits f_digits f_trim f_len total lead show ?thesis
    by blast
qed

text \<open>
  Reading a formatted amount back gives the amount: the string \<open>formatUnits v d\<close> denotes
  exactly \<open>v / 10 ^ d\<close>.
\<close>

lemma parseUnits_formatUnits: "parseUnits (formatUnits v d) d = Inr v"
proof -
  from formatUnits_decomp [of v d] obtain itext ftrim where
    shape: "formatUnits v d = (if v < 0 then ''-'' else []) @ itext
                                @ (if ftrim = [] then [] else CHR ''.'' # ftrim)"
    and parts: "list_all isDigit itext" "itext \<noteq> []" "list_all isDigit ftrim"
      "trimTrailingZeros ftrim = ftrim" "length ftrim \<le> d"
    and total: "decToNat itext * 10 ^ d + decToNat ftrim * 10 ^ (d - length ftrim) = nat \<bar>v\<bar>"
    by blast
  have "parseUnits (formatUnits v d) d
      = Inr ((if v < 0 then - 1 else 1)
             * int (decToNat itext * 10 ^ d + decToNat ftrim * 10 ^ (d - length ftrim)))"
    unfolding shape by (rule parseUnits_canonical [OF parts])
  then show ?thesis
    unfolding total by simp
qed

text \<open>Only digits, a sign and a point occur: there is no exponent.\<close>

lemma formatUnits_chars:
  "list_all (\<lambda>c. isDigit c \<or> c = CHR ''.'' \<or> c = CHR ''-'') (formatUnits v d)"
proof -
  from formatUnits_decomp [of v d] obtain itext ftrim where
    shape: "formatUnits v d = (if v < 0 then ''-'' else []) @ itext
                                @ (if ftrim = [] then [] else CHR ''.'' # ftrim)"
    and parts: "list_all isDigit itext" "list_all isDigit ftrim"
    by blast
  show ?thesis
    unfolding shape using parts by (auto simp: list_all_iff)
qed

lemma trimmed_last:
  assumes "trimTrailingZeros f = f" and "f \<noteq> []"
  shows "last f \<noteq> CHR ''0''"
proof -
  have "dropWhile (\<lambda>c. c = CHR ''0'') (rev f) = rev f"
    using assms(1) by (metis rev_rev_ident trimTrailingZeros_def)
  then have "hd (rev f) \<noteq> CHR ''0''"
    using assms(2) by (simp add: dropWhile_eq_self_iff)
  then show ?thesis
    using assms(2) by (simp add: hd_rev)
qed

text \<open>
  A point is written only in front of a fraction that does not end in a zero; an amount
  whose fraction is zero is written without a point.
\<close>

lemma formatUnits_trimmed:
  assumes "CHR ''.'' \<in> set (formatUnits v d)"
  shows "last (formatUnits v d) \<noteq> CHR ''0''" and "last (formatUnits v d) \<noteq> CHR ''.''"
proof -
  from formatUnits_decomp [of v d] obtain itext ftrim where
    shape: "formatUnits v d = (if v < 0 then ''-'' else []) @ itext
                                @ (if ftrim = [] then [] else CHR ''.'' # ftrim)"
    and parts: "list_all isDigit itext" "list_all isDigit ftrim" "trimTrailingZeros ftrim = ftrim"
    by blast
  have nodot: "CHR ''.'' \<notin> set itext"
    using parts(1) isDigit_not_punct by (auto simp: list_all_iff)
  have f: "ftrim \<noteq> []"
    using assms nodot unfolding shape by (auto split: if_splits)
  then have l: "last (formatUnits v d) = last ftrim"
    unfolding shape by simp
  show "last (formatUnits v d) \<noteq> CHR ''0''"
    unfolding l by (rule trimmed_last [OF parts(3) f])
  have "isDigit (last ftrim)"
    using parts(2) f by (simp add: list_all_iff)
  then show "last (formatUnits v d) \<noteq> CHR ''.''"
    unfolding l using isDigit_not_punct by blast
qed

text \<open>
  C9, as the code has it. The amount on the receipt that \<open>retryWithPayment\<close> returns, and
  with it the one \<open>x402Fetch\<close> returns, is \<open>formatUnits\<close> of the accepted atomic amount at 6
  decimals. That text is a minus sign when the amount is negative, then the integer part
  in decimal digits, at least one and with no leading zero other than a lone \<open>0\<close>, then, only
  when the fraction is not zero, a point and the fraction in at most 6 digits, the last of
  them not \<open>0\<close>; no exponent is written. It denotes the amount exactly: integer part times
  10^6 plus the fraction digits scaled to 6 places is the magnitude of the atomic amount,
  and reading the text back gives the atomic amount. A whole amount therefore has no
  fractional digit: 0 is rendered \<open>0\<close> and 1000000 is rendered \<open>1\<close>.
\<close>

theorem formatUnits_receipt_amounts:
  "(\<exists>itext ftrim.
      formatUnits v 6 = (if v < 0 then ''-'' else []) @ itext
                          @ (if ftrim = [] then [] else CHR ''.'' # ftrim)
      \<and> itext \<noteq> [] \<and> list_all isDigit itext \<and> (itext = ''0'' \<or> hd itext \<noteq> CHR ''0'')
      \<and> list_all isDigit ftrim \<and> length ftrim \<le> 6 \<and> (ftrim \<noteq> [] \<longrightarrow> last ftrim \<noteq> CHR ''0'')
      \<and> decToNat itext * 10 ^ 6 + decToNat ftrim * 10 ^ (6 - length ftrim) = nat \<bar>v\<bar>)
   \<and> parseUnits (formatUnits v 6) 6 = Inr v
   \<and> (\<forall>res w'. retryWithPayment e url opts pq acc payload tid w = (Inr res, w') \<longrightarrow>
        (\<exists>a p. BigInt (pr_amount acc) = Inr a \<and> fr_payment res = Some p
           \<and> pi_amount p = formatUnits a 6))
   \<and> (\<forall>res w' p. x402Fetch e url opts w = (Inr res, w') \<longrightarrow> fr_payment res = Some p \<longrightarrow>
        (\<exists>acc' pq' service w1 a.
           negotiate e url opts w = (Inr (Payment acc' pq' service), w1)
           \<and> BigInt (pr_amount acc') = Inr a \<and> pi_amount p = formatUnits a 6))
   \<and> formatUnits 100000 6 = ''0.1'' \<and> formatUnits 10000 6 = ''0.01''
   \<and> formatUnits 1234567 6 = ''1.234567'' \<and> formatUnits 0 6 = ''0''
   \<and> formatUnits 1000000 6 = ''1''"
proof -
  have examples: "formatUnits 100000 6 = ''0.1''" "formatUnits 10000 6 = ''0.01''"
    "formatUnits 1234567 6 = ''1.234567''" "formatUnits 0 6 = ''0''" "formatUnits 1000000 6 = ''1''"
    by (simp_all add: lib_defs)
  from formatUnits_decomp [of v 6] obtain itext ftrim where
    shape: "formatUnits v 6 = (if v < 0 then ''-'' else []) @ itext
                                @ (if ftrim = [] then [] else CHR ''.'' # ftrim)"
    and parts: "list_all isDigit itext" "itext \<noteq> []" "list_all isDigit ftrim"
      "length ftrim \<le> 6" "itext = ''0'' \<or> hd itext \<noteq> CHR ''0''"
    and trimmed: "trimTrailingZeros ftrim = ftrim"
    and total: "decToNat itext * 10 ^ 6 + decToNat ftrim * 10 ^ (6 - length ftrim) = nat \<bar>v\<bar>"
    by blast
  have "ftrim \<noteq> [] \<longrightarrow> last ftrim \<noteq> CHR ''0''"
    using trimmed_last [OF trimmed] by blast
  with shape parts total have rendered: "\<exists>itext ftrim.
      formatUnits v 6 = (if v < 0 then ''-'' else []) @ itext
                          @ (if ftrim = [] then [] else CHR ''.'' # ftrim)
      \<and> itext \<noteq> [] \<and> list_all isDigit itext \<and> (itext = ''0'' \<or> hd itext \<noteq> CHR ''0'')
      \<and> list_all isDigit ftrim \<and> length ftrim \<le> 6 \<and> (ftrim \<noteq> [] \<longrightarrow> last ftrim \<noteq> CHR ''0'')
      \<and> decToNat itext * 10 ^ 6 + decToNat ftrim * 10 ^ (6 - length ftrim) = nat \<bar>v\<bar>"
    by blast
  have receipt: "\<forall>res w'. retryWithPayment e url opts pq acc payload tid w = (Inr res, w') \<longrightarrow>
        (\<exists>a p. BigInt (pr_amount acc) = Inr a \<and> fr_payment res = Some p
           \<and> pi_amount p = formatUnits a 6)"
    using retryWithPayment_amount by blast
  have fetched: "\<forall>res w' p. x402Fetch e url opts w = (Inr res, w') \<longrightarrow> fr_payment res = Some p \<longrightarrow>
        (\<exists>acc' pq' service w1 a.
           negotiate e url opts w = (Inr (Payment acc' pq' service), w1)
           \<and> BigInt (pr_amount acc') = Inr a \<and> pi_amount p = formatUnits a 6)"
    using x402Fetch_amount by blast
  show ?thesis
    using rendered parseUnits_formatUnits [of v 6] receipt fetched examples
    by blast
qed

theorem formatUnits_receipt_amounts_witness:
  "formatUnits 1500000 6 = ''1.5'' \<and> parseUnits ''1.5'' 6 = Inr 1500000
   \<and> (\<exists>acc pq service w1 a.
        negotiate demoEnv ''https://api.example/x'' demoOptions (demoWorld DEFAULT_RULES [])
          = (Inr (Payment acc pq service), w1)
        \<and> BigInt (pr_amount acc) = Inr a \<and> ''0.1'' = formatUnits a 6)"
proof -
  have f: "formatUnits 1500000 6 = ''1.5''"
    by (simp add: lib_defs)
  note inst = formatUnits_receipt_amounts [where v = 1500000 and e = demoEnv
      and url = "''https://api.example/x''" and opts = demoOptions
      and w = "demoWorld DEFAULT_RULES []"]
  have readback: "parseUnits ''1.5'' 6 = Inr 1500000"
    using inst by (simp add: f)
  have "\<exists>acc pq service w1 a.
        negotiate demoEnv ''https://api.example/x'' demoOptions (demoWorld DEFAULT_RULES [])
          = (Inr (Payment acc pq service), w1)
        \<and> BigInt (pr_amount acc) = Inr a
        \<and> pi_amount \<lparr>pi_txHash = None, pi_amount = ''0.1'', pi_to = ''0xP''\<rparr> = formatUnits a 6"
    using inst demo_fetch_run by fastforce
  then show ?thesis
    using f readback by simp
qed
end
